theory Spec2Isabelle
  imports Complex_Main
begin

section \<open>JavaScript numbers and strings at the persistence boundary\<close>

text \<open>
  The engine keeps its counters in JavaScript numbers. Every value the program computes
  from integers stays an integer (sums, differences, \<open>Math.floor\<close> and \<open>Math.ceil\<close>
  of quotients, \<open>Math.max\<close>, \<open>Math.min\<close>, remainders), and below \<open>2^53\<close> these
  operations are exact on doubles, so a number is modelled as an unbounded \<open>int\<close>.
  The one non-integer value the program can meet is \<open>NaN\<close>, which \<open>parseInt\<close> returns for
  a string without a leading integer: a number read from storage is therefore a
  \<open>jsnum\<close>, with \<open>None\<close> for \<open>NaN\<close>.
\<close>

type_synonym jsnum = "int option"

definition jadd :: "jsnum \<Rightarrow> jsnum \<Rightarrow> jsnum" where
  "jadd a b = (case a of None \<Rightarrow> None | Some x \<Rightarrow> (case b of None \<Rightarrow> None | Some y \<Rightarrow> Some (x + y)))"

definition jsub :: "jsnum \<Rightarrow> jsnum \<Rightarrow> jsnum" where
  "jsub a b = (case a of None \<Rightarrow> None | Some x \<Rightarrow> (case b of None \<Rightarrow> None | Some y \<Rightarrow> Some (x - y)))"

definition jlt :: "jsnum \<Rightarrow> jsnum \<Rightarrow> bool" where
  \<comment> \<open>\<open>a < b\<close>: false as soon as one side is \<open>NaN\<close>\<close>
  "jlt a b = (case a of None \<Rightarrow> False | Some x \<Rightarrow> (case b of None \<Rightarrow> False | Some y \<Rightarrow> x < y))"

definition jgt :: "jsnum \<Rightarrow> jsnum \<Rightarrow> bool" where
  "jgt a b = jlt b a"

definition jmax :: "jsnum \<Rightarrow> jsnum \<Rightarrow> jsnum" where
  \<comment> \<open>\<open>Math.max(a, b)\<close>: \<open>NaN\<close> as soon as one argument is \<open>NaN\<close>\<close>
  "jmax a b = (case a of None \<Rightarrow> None | Some x \<Rightarrow> (case b of None \<Rightarrow> None | Some y \<Rightarrow> Some (max x y)))"

definition jfloor_div :: "jsnum \<Rightarrow> int \<Rightarrow> jsnum" where
  \<comment> \<open>\<open>Math.floor(a / d)\<close> for a positive integer constant \<open>d\<close>\<close>
  "jfloor_div a d = (case a of None \<Rightarrow> None | Some x \<Rightarrow> Some (x div d))"

text \<open>
  \<open>parseInt(s, 10)\<close>: leading white space is skipped, one sign is read, then the longest
  run of decimal digits; no digit gives \<open>NaN\<close>. Strings are lists of code units; the
  white-space code units below 256 are the ones listed.
\<close>

definition isWhiteSpace :: "char \<Rightarrow> bool" where
  "isWhiteSpace c = ((of_char c :: nat) \<in> {9, 10, 11, 12, 13, 32, 160})"

definition isDigit :: "char \<Rightarrow> bool" where
  "isDigit c = (48 \<le> (of_char c :: nat) \<and> (of_char c :: nat) \<le> 57)"

definition digitVal :: "char \<Rightarrow> int" where
  "digitVal c = int (of_char c) - 48"

definition digitsVal :: "string \<Rightarrow> int" where
  "digitsVal z = foldl (\<lambda>a c. 10 * a + digitVal c) 0 z"

definition parseInt :: "string \<Rightarrow> jsnum" where
  "parseInt s =
     (let t = dropWhile isWhiteSpace s;
          neg = (case t of [] \<Rightarrow> False | c # r \<Rightarrow> c = CHR ''-'');
          u = (case t of [] \<Rightarrow> [] | c # r \<Rightarrow> if c = CHR ''-'' \<or> c = CHR ''+'' then r else t);
          z = takeWhile isDigit u
      in if z = [] then None else Some ((if neg then - 1 else 1) * digitsVal z))"

text \<open>\<open>n.toString()\<close> for an integer \<open>n\<close>: its decimal digits, with a minus sign when negative.\<close>

definition digitChar :: "nat \<Rightarrow> char" where
  "digitChar d = char_of (48 + d)"

fun digitsOf :: "nat \<Rightarrow> string" where
  "digitsOf n = (if n < 10 then [digitChar n] else digitsOf (n div 10) @ [digitChar (n mod 10)])"

declare digitsOf.simps [simp del]

definition toString :: "int \<Rightarrow> string" where
  "toString n = (if n < 0 then CHR ''-'' # digitsOf (nat (- n)) else digitsOf (nat n))"

section \<open>The durable snapshot store\<close>

text \<open>
  \<open>localStorage\<close> maps keys to strings. The program uses five fixed keys for the
  snapshot (the settings live under a sixth key and are read separately).
\<close>

datatype key =
    Key_pomodoroAccumulatedSeconds
  | Key_pomodoroStartTime
  | Key_pomodoroIsRunning
  | Key_pomodorosCompleted
  | Key_availableRestMinutes

type_synonym storage = "key \<rightharpoonup> string"

definition getItemOr0 :: "storage \<Rightarrow> key \<Rightarrow> string" where
  \<comment> \<open>\<open>localStorage.getItem(k) || '0'\<close>: \<open>null\<close> and the empty string are falsy\<close>
  "getItemOr0 ls k = (case ls k of None \<Rightarrow> ''0'' | Some v \<Rightarrow> if v = [] then ''0'' else v)"

section \<open>Initial state\<close>

text \<open>
  \<open>getInitialState\<close> as it runs in a browser (the branch for a missing \<open>window\<close>
  returns the constant all-zero state and reads nothing). The fixed-settings application
  calls it with 1500 seconds, the configurable one with the configured cycle length.
\<close>

record initial_values =
  pomodoros :: jsnum
  seconds :: jsnum
  wasRunning :: bool
  restMinutes :: jsnum

definition getInitialState :: "int \<Rightarrow> storage \<Rightarrow> int \<Rightarrow> initial_values" where
  \<comment> \<open>\<open>now\<close> is the value of \<open>Date.now()\<close>; the field \<open>wasRunning\<close> is the source's \<open>isRunning: wasRunning\<close>\<close>
  "getInitialState pomodoroDurationSeconds ls now =
     (let savedAccumulated = parseInt (getItemOr0 ls Key_pomodoroAccumulatedSeconds);
          savedStartTime = parseInt (getItemOr0 ls Key_pomodoroStartTime);
          running = (ls Key_pomodoroIsRunning = Some ''true'');
          storedPomodoros = parseInt (getItemOr0 ls Key_pomodorosCompleted);
          storedRest = parseInt (getItemOr0 ls Key_availableRestMinutes);
          totalSeconds0 =
            (if running \<and> jgt savedStartTime (Some 0)
             then jadd savedAccumulated (jfloor_div (jsub (Some now) savedStartTime) 1000)
             else savedAccumulated);
          totalSeconds1 = (if jlt totalSeconds0 (Some 0) then Some 0 else totalSeconds0);
          derivedPomodoros = jfloor_div totalSeconds1 pomodoroDurationSeconds;
          initialPomodoros = jmax storedPomodoros derivedPomodoros
      in \<lparr> pomodoros = initialPomodoros, seconds = totalSeconds1,
           wasRunning = running, restMinutes = storedRest \<rparr>)"

definition syncStateFromStorage :: "storage \<Rightarrow> int \<Rightarrow> jsnum option" where
  \<comment> \<open>\<open>None\<close>: the function returns early; \<open>Some v\<close>: it calls \<open>setTotalSeconds(v)\<close>\<close>
  "syncStateFromStorage ls now =
     (if ls Key_pomodoroIsRunning \<noteq> Some ''true'' then None
      else let accumulatedSecondsOnStart = parseInt (getItemOr0 ls Key_pomodoroAccumulatedSeconds);
               startTime = parseInt (getItemOr0 ls Key_pomodoroStartTime)
           in if startTime = Some 0 then None
              else Some (jadd accumulatedSecondsOnStart
                           (jfloor_div (jsub (Some now) startTime) 1000)))"

section \<open>Settings, engine state and emitted events\<close>

text \<open>
  The configurable application reads its settings from storage once; they are taken here
  as an already parsed record of integers. The fixed-settings application is the
  instance \<open>fixed_settings\<close> (25 minutes, rewards 5 and 15).
\<close>

record settings =
  pomodoroDuration :: int
  shortRestReward :: int
  longRestReward :: int

definition POMODORO_DURATION_SECONDS :: "settings \<Rightarrow> int" where
  "POMODORO_DURATION_SECONDS s = max 60 (pomodoroDuration s * 60)"

definition fixed_settings :: settings where
  "fixed_settings = \<lparr> pomodoroDuration = 25, shortRestReward = 5, longRestReward = 15 \<rparr>"

datatype ntype = Gift | Super | Info

datatype message =
    Msg_Gifts int
  | Msg_SuperGift int
  | Msg_Gift int
  | Msg_SettingsSaved
  | Msg_TimerReset
  | Msg_PomodorosReset
  | Msg_RestReset
  | Msg_Borrowed int
  | Msg_RestReturned int
  | Msg_RestBorrowedFromStore int
  | Msg_PomodoroAdded
  | Msg_PomodoroRemoved
  | Msg_MinutesAdded int
  | Msg_MinutesRemoved int

datatype browser_message = PomodoroCompleted int | RestFinished

datatype sound = Success | Alert

datatype effect =
    ShowNotification message ntype
  | SendBrowserNotification browser_message
  | PlaySound sound

text \<open>
  The state of the component: the React state variables, the two refs, the store, and
  the trace of calls to \<open>showNotification\<close>, \<open>sendBrowserNotification\<close> and
  \<open>playSound\<close> in the order they are made.
\<close>

record app_state =
  settings :: settings
  pomodorosCompleted :: int
  availableRestMinutes :: int
  isRunning :: bool
  totalSeconds :: int
  isResting :: bool
  restSecondsRemaining :: int
  prevPomodorosRef :: int
  manualUpdatesPending :: int
  localStorage :: storage
  emitted :: "effect list"

section \<open>Effects that run after a render\<close>

text \<open>The reward loop \<open>for (let i = 1; i <= giftableCount; i++)\<close> with its three accumulators.\<close>

function giftLoop :: "int \<Rightarrow> int \<Rightarrow> int \<Rightarrow> int \<Rightarrow> int \<Rightarrow> int \<times> int \<times> int \<Rightarrow> int \<times> int \<times> int" where
  "giftLoop longReward shortReward startCalc giftableCount i (newRestMinutes, superGifts, normalGifts) =
     (if i \<le> giftableCount then
        (let currentPomodoroNumber = startCalc + i
         in if currentPomodoroNumber > 0 \<and> currentPomodoroNumber mod 4 = 0
            then giftLoop longReward shortReward startCalc giftableCount (i + 1)
                   (newRestMinutes + longReward, superGifts + 1, normalGifts)
            else giftLoop longReward shortReward startCalc giftableCount (i + 1)
                   (newRestMinutes + shortReward, superGifts, normalGifts + 1))
      else (newRestMinutes, superGifts, normalGifts))"
  by pat_completeness auto
termination
  by (relation "measure (\<lambda>(l, s, c, g, i, acc). nat (g + 1 - i))") auto

declare giftLoop.simps [simp del]

definition reward_notification :: "int \<Rightarrow> int \<Rightarrow> int \<Rightarrow> effect" where
  "reward_notification newRestMinutes superGifts normalGifts =
     (if superGifts > 0
      then ShowNotification
             (if superGifts > 0 \<and> normalGifts > 0 then Msg_Gifts newRestMinutes
              else Msg_SuperGift newRestMinutes) Super
      else ShowNotification (Msg_Gift newRestMinutes) Gift)"

definition gift_effect :: "app_state \<Rightarrow> app_state" where
  "gift_effect st =
     (let previousPomodoros = prevPomodorosRef st;
          st1 = st\<lparr> localStorage :=
                  (localStorage st)(Key_pomodorosCompleted \<mapsto> toString (pomodorosCompleted st)) \<rparr>;
          st2 =
            (if pomodorosCompleted st > previousPomodoros then
               (let totalDiff = pomodorosCompleted st - previousPomodoros;
                    manualCount = min totalDiff (manualUpdatesPending st);
                    giftableCount = totalDiff - manualCount;
                    st1a = st1\<lparr> manualUpdatesPending :=
                              max 0 (manualUpdatesPending st - manualCount) \<rparr>
                in if giftableCount > 0 then
                     (let startCalc = previousPomodoros + manualCount;
                          (newRestMinutes, superGifts, normalGifts) =
                             giftLoop (longRestReward (settings st)) (shortRestReward (settings st))
                               startCalc giftableCount 1 (0, 0, 0)
                      in if newRestMinutes > 0 then
                           (let updatedRest = availableRestMinutes st + newRestMinutes
                            in st1a\<lparr> availableRestMinutes := updatedRest,
                                     localStorage :=
                                       (localStorage st1a)(Key_availableRestMinutes \<mapsto> toString updatedRest),
                                     emitted := emitted st @
                                       [reward_notification newRestMinutes superGifts normalGifts,
                                        SendBrowserNotification (PomodoroCompleted newRestMinutes),
                                        PlaySound Success] \<rparr>)
                         else st1a)
                   else st1a)
             else st1)
      in st2\<lparr> prevPomodorosRef := pomodorosCompleted st \<rparr>)"

definition derive_effect :: "app_state \<Rightarrow> app_state" where
  "derive_effect st =
     (let completedNow = totalSeconds st div POMODORO_DURATION_SECONDS (settings st)
      in if completedNow > pomodorosCompleted st
         then st\<lparr> pomodorosCompleted := completedNow \<rparr> else st)"

definition rest_finished_effect :: "app_state \<Rightarrow> app_state" where
  "rest_finished_effect st =
     (if isResting st \<and> restSecondsRemaining st = 0
      then st\<lparr> emitted := emitted st @ [SendBrowserNotification RestFinished, PlaySound Alert] \<rparr>
      else st)"

text \<open>
  One render replaces the rendered state \<open>old\<close> by \<open>new\<close>; afterwards React runs, in the
  order of their declaration, the effects with a changed dependency. The cycle-derivation
  effect may set the cycle count, which causes one more render and effect pass.
\<close>

definition effects_pass :: "app_state \<Rightarrow> app_state \<Rightarrow> app_state" where
  "effects_pass old new =
     (let a = (if pomodorosCompleted new \<noteq> pomodorosCompleted old
                  \<or> longRestReward (settings new) \<noteq> longRestReward (settings old)
                  \<or> shortRestReward (settings new) \<noteq> shortRestReward (settings old)
               then gift_effect new else new);
          b = (if totalSeconds new \<noteq> totalSeconds old
                  \<or> pomodorosCompleted new \<noteq> pomodorosCompleted old
                  \<or> POMODORO_DURATION_SECONDS (settings new) \<noteq> POMODORO_DURATION_SECONDS (settings old)
               then derive_effect a else a)
      in if isResting new \<noteq> isResting old \<or> restSecondsRemaining new \<noteq> restSecondsRemaining old
         then rest_finished_effect b else b)"

definition run_effects :: "app_state \<Rightarrow> app_state \<Rightarrow> app_state" where
  "run_effects old new =
     (let c = effects_pass old new
      in if pomodorosCompleted c \<noteq> pomodorosCompleted new then effects_pass new c else c)"

definition mount :: "settings \<Rightarrow> storage \<Rightarrow> int \<Rightarrow> app_state option" where
  \<comment> \<open>the first render and its effects, all of which run; \<open>None\<close> when a counter is \<open>NaN\<close>\<close>
  "mount s ls now =
     (let iv = getInitialState (POMODORO_DURATION_SECONDS s) ls now
      in case pomodoros iv of None \<Rightarrow> None | Some p \<Rightarrow>
         (case seconds iv of None \<Rightarrow> None | Some t \<Rightarrow>
         (case restMinutes iv of None \<Rightarrow> None | Some r \<Rightarrow>
            (let st0 = \<lparr> settings = s, pomodorosCompleted = p, availableRestMinutes = r,
                         isRunning = wasRunning iv, totalSeconds = t, isResting = False,
                         restSecondsRemaining = 0, prevPomodorosRef = p,
                         manualUpdatesPending = 0, localStorage = ls, emitted = [] \<rparr>;
                 c = rest_finished_effect (derive_effect (gift_effect st0))
             in Some (if pomodorosCompleted c \<noteq> pomodorosCompleted st0
                      then effects_pass st0 c else c)))))"

section \<open>Command handlers\<close>

text \<open>
  Each handler is the batch of state updates, store writes and notifications the source
  function makes when called in the rendered state \<open>st\<close>; \<open>now\<close> is \<open>Date.now()\<close>.
\<close>

definition handleStartResume :: "int \<Rightarrow> app_state \<Rightarrow> app_state" where
  "handleStartResume now st =
     st\<lparr> localStorage := (localStorage st)
            (Key_pomodoroAccumulatedSeconds \<mapsto> toString (totalSeconds st),
             Key_pomodoroStartTime \<mapsto> toString now,
             Key_pomodoroIsRunning \<mapsto> ''true''),
         isRunning := True \<rparr>"

definition handlePause :: "app_state \<Rightarrow> app_state" where
  "handlePause st =
     (let completedNow = totalSeconds st div POMODORO_DURATION_SECONDS (settings st)
      in st\<lparr> pomodorosCompleted := max (pomodorosCompleted st) completedNow,
             localStorage := ((localStorage st)
               (Key_pomodoroAccumulatedSeconds \<mapsto> toString (totalSeconds st),
                Key_pomodoroIsRunning \<mapsto> ''false''))
               (Key_pomodoroStartTime := None),
             isRunning := False \<rparr>)"

definition handleResetTimer :: "app_state \<Rightarrow> app_state" where
  "handleResetTimer st =
     st\<lparr> totalSeconds := 0,
         localStorage := ((localStorage st)(Key_pomodoroAccumulatedSeconds \<mapsto> ''0''))
                           (Key_pomodoroStartTime := None),
         emitted := emitted st @ [ShowNotification Msg_TimerReset Info] \<rparr>"

definition jsrem :: "int \<Rightarrow> int \<Rightarrow> int" where
  \<comment> \<open>the remainder operator \<open>%\<close>: the result has the sign of the dividend\<close>
  "jsrem a b = (if a < 0 then - ((- a) mod \<bar>b\<bar>) else a mod \<bar>b\<bar>)"

definition handleResetPomodoros :: "int \<Rightarrow> app_state \<Rightarrow> app_state" where
  "handleResetPomodoros now st =
     (let newTotalSeconds = jsrem (totalSeconds st) (POMODORO_DURATION_SECONDS (settings st))
      in st\<lparr> totalSeconds := newTotalSeconds,
             pomodorosCompleted := 0,
             manualUpdatesPending := 0,
             localStorage :=
               (if isRunning st
                then (localStorage st)
                       (Key_pomodoroAccumulatedSeconds \<mapsto> toString newTotalSeconds,
                        Key_pomodoroStartTime \<mapsto> toString now)
                else (localStorage st)
                       (Key_pomodoroAccumulatedSeconds \<mapsto> toString newTotalSeconds)),
             emitted := emitted st @ [ShowNotification Msg_PomodorosReset Info] \<rparr>)"

definition handleResetRestMinutes :: "app_state \<Rightarrow> app_state" where
  "handleResetRestMinutes st =
     st\<lparr> availableRestMinutes := 0,
         localStorage := (localStorage st)(Key_availableRestMinutes \<mapsto> ''0''),
         emitted := emitted st @ [ShowNotification Msg_RestReset Info] \<rparr>"

definition handleUseRest :: "app_state \<Rightarrow> app_state" where
  "handleUseRest st =
     (if isResting st then st
      else
        (let st1 = (if isRunning st then handlePause st else st);
             st2 = st1\<lparr> isResting := True \<rparr>
         in if availableRestMinutes st > 0
            then st2\<lparr> restSecondsRemaining := availableRestMinutes st * 60,
                      availableRestMinutes := 0,
                      localStorage := (localStorage st2)(Key_availableRestMinutes \<mapsto> ''0'') \<rparr>
            else
              (let BORROW_MINUTES = 5;
                   newTotal = availableRestMinutes st2 - BORROW_MINUTES
               in st2\<lparr> restSecondsRemaining := BORROW_MINUTES * 60,
                        availableRestMinutes := newTotal,
                        localStorage := (localStorage st2)(Key_availableRestMinutes \<mapsto> toString newTotal),
                        emitted := emitted st2 @ [ShowNotification (Msg_Borrowed BORROW_MINUTES) Info] \<rparr>)))"

definition ceil_div :: "int \<Rightarrow> int \<Rightarrow> int" where
  \<comment> \<open>\<open>Math.ceil(a / b)\<close> on integers, \<open>b > 0\<close>\<close>
  "ceil_div a b = - ((- a) div b)"

definition handlePauseRest :: "app_state \<Rightarrow> app_state" where
  "handlePauseRest st =
     (let adjustmentMinutes =
            (if restSecondsRemaining st > 0 then ceil_div (restSecondsRemaining st) 60
             else restSecondsRemaining st div 60);
          st1 =
            (if adjustmentMinutes \<noteq> 0 then
               (let newTotal = availableRestMinutes st + adjustmentMinutes
                in st\<lparr> availableRestMinutes := newTotal,
                       localStorage := (localStorage st)(Key_availableRestMinutes \<mapsto> toString newTotal),
                       emitted := emitted st @
                         [if adjustmentMinutes > 0
                          then ShowNotification (Msg_RestReturned adjustmentMinutes) Info
                          else ShowNotification (Msg_RestBorrowedFromStore \<bar>adjustmentMinutes\<bar>) Info] \<rparr>)
             else st)
      in st1\<lparr> isResting := False, restSecondsRemaining := 0 \<rparr>)"

definition handleAddPomodoro :: "int \<Rightarrow> app_state \<Rightarrow> app_state" where
  "handleAddPomodoro now st =
     (let newTotal = totalSeconds st + POMODORO_DURATION_SECONDS (settings st)
      in st\<lparr> manualUpdatesPending := manualUpdatesPending st + 1,
             pomodorosCompleted := pomodorosCompleted st + 1,
             totalSeconds := newTotal,
             localStorage :=
               (if isRunning st
                then (localStorage st)
                       (Key_pomodoroAccumulatedSeconds \<mapsto> toString newTotal,
                        Key_pomodoroStartTime \<mapsto> toString now)
                else (localStorage st)
                       (Key_pomodoroAccumulatedSeconds \<mapsto> toString newTotal)),
             emitted := emitted st @ [ShowNotification Msg_PomodoroAdded Info] \<rparr>)"

definition handleRemovePomodoro :: "int \<Rightarrow> app_state \<Rightarrow> app_state" where
  "handleRemovePomodoro now st =
     (if pomodorosCompleted st > 0 then
        (let newSeconds = max 0 (totalSeconds st - POMODORO_DURATION_SECONDS (settings st))
         in st\<lparr> emitted := emitted st @ [ShowNotification Msg_PomodoroRemoved Info],
                totalSeconds := newSeconds,
                localStorage :=
                  (if isRunning st
                   then (localStorage st)
                          (Key_pomodoroAccumulatedSeconds \<mapsto> toString newSeconds,
                           Key_pomodoroStartTime \<mapsto> toString now)
                   else (localStorage st)
                          (Key_pomodoroAccumulatedSeconds \<mapsto> toString newSeconds)),
                pomodorosCompleted := pomodorosCompleted st - 1 \<rparr>)
      else st)"

definition handleAddRestMinutes :: "int \<Rightarrow> app_state \<Rightarrow> app_state" where
  "handleAddRestMinutes minutes st =
     (if minutes > 0 then
        (let newTotal = availableRestMinutes st + minutes
         in st\<lparr> availableRestMinutes := newTotal,
                localStorage := (localStorage st)(Key_availableRestMinutes \<mapsto> toString newTotal),
                emitted := emitted st @ [ShowNotification (Msg_MinutesAdded minutes) Info] \<rparr>)
      else st)"

definition handleRemoveRestMinutes :: "int \<Rightarrow> app_state \<Rightarrow> app_state" where
  "handleRemoveRestMinutes minutes st =
     (if minutes > 0 then
        (let newTotal = availableRestMinutes st - minutes
         in st\<lparr> availableRestMinutes := newTotal,
                localStorage := (localStorage st)(Key_availableRestMinutes \<mapsto> toString newTotal),
                emitted := (if availableRestMinutes st \<ge> minutes
                            then emitted st @ [ShowNotification (Msg_MinutesRemoved minutes) Info]
                            else emitted st) \<rparr>)
      else st)"

definition handleSaveSettings :: "settings \<Rightarrow> app_state \<Rightarrow> app_state" where
  \<comment> \<open>the settings themselves are written under their own key, outside the snapshot\<close>
  "handleSaveSettings newSettings st =
     st\<lparr> settings := newSettings,
         emitted := emitted st @ [ShowNotification Msg_SettingsSaved Info] \<rparr>"

definition handleMainTick :: "app_state \<Rightarrow> app_state" where
  "handleMainTick st = st\<lparr> totalSeconds := totalSeconds st + 1 \<rparr>"

definition handleRestTick :: "app_state \<Rightarrow> app_state" where
  "handleRestTick st = st\<lparr> restSecondsRemaining := restSecondsRemaining st - 1 \<rparr>"

definition handleVisibilityChange :: "int \<Rightarrow> app_state \<Rightarrow> app_state option" where
  \<comment> \<open>the document became visible; \<open>None\<close> when the store yields \<open>NaN\<close>\<close>
  "handleVisibilityChange now st =
     (if isRunning st then
        (case syncStateFromStorage (localStorage st) now of
           None \<Rightarrow> Some st
         | Some None \<Rightarrow> None
         | Some (Some v) \<Rightarrow> Some (st\<lparr> totalSeconds := v \<rparr>))
      else Some st)"

definition handleReboot :: "storage \<Rightarrow> storage" where
  \<comment> \<open>the five \<open>removeItem\<close> calls; the page reload that follows is \<open>mount\<close>\<close>
  "handleReboot ls =
     ls(Key_pomodoroAccumulatedSeconds := None, Key_pomodoroStartTime := None,
        Key_pomodoroIsRunning := None, Key_pomodorosCompleted := None,
        Key_availableRestMinutes := None)"

section \<open>Events and reachable states\<close>

datatype event =
    Tick
  | RestTick
  | VisibilityVisible int
  | StartResume int
  | Pause
  | ResetTimer
  | ResetPomodoros int
  | ResetRestMinutes
  | UseRest
  | EndRest
  | AddPomodoro int
  | RemovePomodoro int
  | AddRestMinutes int
  | RemoveRestMinutes int
  | SaveSettings settings
  | Reboot int

text \<open>
  When an event can occur: a tick source runs while its timer does; a button fires only
  while it is rendered and not disabled; the settings dialog saves only validated values.
\<close>

fun enabled :: "event \<Rightarrow> app_state \<Rightarrow> bool" where
  "enabled Tick st = isRunning st"
| "enabled RestTick st = isResting st"
| "enabled (VisibilityVisible now) st = True"
| "enabled (StartResume now) st = (\<not> isResting st \<and> \<not> isRunning st)"
| "enabled Pause st = (\<not> isResting st \<and> isRunning st)"
| "enabled ResetTimer st = (\<not> isRunning st \<and> \<not> isResting st \<and> totalSeconds st > 0)"
| "enabled (ResetPomodoros now) st = (\<not> pomodorosCompleted st \<le> 0)"
| "enabled ResetRestMinutes st = (availableRestMinutes st \<noteq> 0)"
| "enabled UseRest st = (\<not> isResting st)"
| "enabled EndRest st = isResting st"
| "enabled (AddPomodoro now) st = True"
| "enabled (RemovePomodoro now) st = (\<not> pomodorosCompleted st \<le> 0)"
| "enabled (AddRestMinutes minutes) st = True"
| "enabled (RemoveRestMinutes minutes) st = True"
| "enabled (SaveSettings ns) st =
     (\<not> (pomodoroDuration ns \<le> 0 \<or> shortRestReward ns \<le> 0 \<or> longRestReward ns \<le> 0))"
| "enabled (Reboot now) st = True"

fun handler :: "event \<Rightarrow> app_state \<Rightarrow> app_state option" where
  "handler Tick st = Some (handleMainTick st)"
| "handler RestTick st = Some (handleRestTick st)"
| "handler (VisibilityVisible now) st = handleVisibilityChange now st"
| "handler (StartResume now) st = Some (handleStartResume now st)"
| "handler Pause st = Some (handlePause st)"
| "handler ResetTimer st = Some (handleResetTimer st)"
| "handler (ResetPomodoros now) st = Some (handleResetPomodoros now st)"
| "handler ResetRestMinutes st = Some (handleResetRestMinutes st)"
| "handler UseRest st = Some (handleUseRest st)"
| "handler EndRest st = Some (handlePauseRest st)"
| "handler (AddPomodoro now) st = Some (handleAddPomodoro now st)"
| "handler (RemovePomodoro now) st = Some (handleRemovePomodoro now st)"
| "handler (AddRestMinutes minutes) st = Some (handleAddRestMinutes minutes st)"
| "handler (RemoveRestMinutes minutes) st = Some (handleRemoveRestMinutes minutes st)"
| "handler (SaveSettings ns) st = Some (handleSaveSettings ns st)"
| "handler (Reboot now) st = mount (settings st) (handleReboot (localStorage st)) now"

definition step :: "event \<Rightarrow> app_state \<Rightarrow> app_state option" where
  \<comment> \<open>one event processed to completion: the handler, then the render's effects;
      a reboot reloads the page, so its state is the freshly mounted one\<close>
  "step e st =
     (if \<not> enabled e st then None
      else case handler e st of
             None \<Rightarrow> None
           | Some st' \<Rightarrow> (case e of Reboot now \<Rightarrow> Some st' | _ \<Rightarrow> Some (run_effects st st')))"

fun run :: "event list \<Rightarrow> app_state \<Rightarrow> app_state option" where
  "run [] st = Some st"
| "run (e # es) st = (case step e st of None \<Rightarrow> None | Some st' \<Rightarrow> run es st')"

inductive reachable :: "app_state \<Rightarrow> bool" where
  reachable_mount: "mount s ls now = Some st \<Longrightarrow> reachable st"
| reachable_step: "reachable st \<Longrightarrow> step e st = Some st' \<Longrightarrow> reachable st'"

section \<open>Invariants of the reachable states\<close>

text \<open>
  The store agrees with the state: the running flag, the balance, and the cycle count
  last seen by the gift effect.
\<close>

definition store_ok :: "app_state \<Rightarrow> bool" where
  "store_ok st =
     ((isRunning st = (localStorage st Key_pomodoroIsRunning = Some ''true''))
      \<and> parseInt (getItemOr0 (localStorage st) Key_availableRestMinutes)
            = Some (availableRestMinutes st)
      \<and> parseInt (getItemOr0 (localStorage st) Key_pomodorosCompleted)
            = Some (prevPomodorosRef st))"

text \<open>
  Between events the effects have run to completion: the gift effect has seen the current
  cycle count, no manual cycle is pending, the count is not behind the elapsed time, it
  is not negative, and the two timers do not run together.
\<close>

definition settled :: "app_state \<Rightarrow> bool" where
  "settled st =
     (prevPomodorosRef st = pomodorosCompleted st
      \<and> manualUpdatesPending st = 0
      \<and> totalSeconds st div POMODORO_DURATION_SECONDS (settings st) \<le> pomodorosCompleted st
      \<and> 0 \<le> pomodorosCompleted st
      \<and> (isRunning st \<longrightarrow> \<not> isResting st))"

text \<open>What a handler called in a settled state leaves for the effects to do.\<close>

definition handled :: "app_state \<Rightarrow> app_state \<Rightarrow> bool" where
  "handled old new =
     (store_ok new
      \<and> prevPomodorosRef new = pomodorosCompleted old
      \<and> (manualUpdatesPending new = 0
           \<or> (manualUpdatesPending new = 1 \<and> pomodorosCompleted new = pomodorosCompleted old + 1))
      \<and> 0 \<le> pomodorosCompleted new
      \<and> (isRunning new \<longrightarrow> \<not> isResting new)
      \<and> (totalSeconds new = totalSeconds old \<and> pomodorosCompleted new = pomodorosCompleted old
           \<and> POMODORO_DURATION_SECONDS (settings new) = POMODORO_DURATION_SECONDS (settings old)
          \<longrightarrow> totalSeconds new div POMODORO_DURATION_SECONDS (settings new) \<le> pomodorosCompleted new))"

text \<open>The commands that may lower the cycle count.\<close>

fun lowers_count :: "event \<Rightarrow> bool" where
  "lowers_count (RemovePomodoro now) = True"
| "lowers_count (ResetPomodoros now) = True"
| "lowers_count (Reboot now) = True"
| "lowers_count e = False"

text \<open>The state a first launch mounts from an empty store, with the fixed settings.\<close>

definition fresh_state :: app_state where
  "fresh_state =
     \<lparr> settings = fixed_settings, pomodorosCompleted = 0, availableRestMinutes = 0,
       isRunning = False, totalSeconds = 0, isResting = False, restSecondsRemaining = 0,
       prevPomodorosRef = 0, manualUpdatesPending = 0,
       localStorage = [Key_pomodorosCompleted \<mapsto> ''0''], emitted = [] \<rparr>"

section \<open>Decimal rendering and parsing are inverse\<close>

lemma of_char_digitChar: "d < 10 \<Longrightarrow> (of_char (digitChar d) :: nat) = 48 + d"
  by (simp add: digitChar_def)

lemma isDigit_digitChar: "d < 10 \<Longrightarrow> isDigit (digitChar d)"
  by (simp add: isDigit_def of_char_digitChar)

lemma digitVal_digitChar: "d < 10 \<Longrightarrow> digitVal (digitChar d) = int d"
  by (simp add: digitVal_def of_char_digitChar)

lemma digitsOf_digits: "c \<in> set (digitsOf n) \<Longrightarrow> isDigit c"
proof (induction n arbitrary: c rule: digitsOf.induct)
  case (1 n)
  show ?case
  proof (cases "n < 10")
    case True
    with "1.prems" show ?thesis
      by (simp add: digitsOf.simps [of n] isDigit_digitChar)
  next
    case False
    with "1.prems" "1.IH" show ?thesis
      by (auto simp add: digitsOf.simps [of n] isDigit_digitChar)
  qed
qed

lemma digitsOf_nonempty: "digitsOf n \<noteq> []"
  by (simp add: digitsOf.simps [of n])

lemma digitsVal_snoc: "digitsVal (z @ [c]) = 10 * digitsVal z + digitVal c"
  by (simp add: digitsVal_def)

lemma digitsVal_digitsOf: "digitsVal (digitsOf n) = int n"
proof (induction n rule: digitsOf.induct)
  case (1 n)
  show ?case
  proof (cases "n < 10")
    case True
    then show ?thesis
      by (simp add: digitsOf.simps [of n] digitsVal_def digitVal_digitChar)
  next
    case False
    then have "digitsVal (digitsOf n) = 10 * int (n div 10) + int (n mod 10)"
      using "1.IH" by (simp add: digitsOf.simps [of n] digitsVal_snoc digitVal_digitChar)
    then show ?thesis by (simp add: zdiv_int zmod_int)
  qed
qed

lemma isDigit_not_space: "isDigit c \<Longrightarrow> \<not> isWhiteSpace c"
  by (auto simp add: isDigit_def isWhiteSpace_def)

lemma isDigit_not_sign: "isDigit c \<Longrightarrow> c \<noteq> CHR ''-'' \<and> c \<noteq> CHR ''+''"
  by (auto simp add: isDigit_def)

lemma parseInt_all_digits:
  assumes "z \<noteq> []" and "\<forall>c \<in> set z. isDigit c"
  shows "parseInt z = Some (digitsVal z)" and "parseInt (CHR ''-'' # z) = Some (- digitsVal z)"
proof -
  obtain c r where cr: "z = c # r"
    using assms(1) by (cases z) auto
  have dc: "isDigit c" using assms(2) cr by simp
  have tw: "takeWhile isDigit r = r"
    using assms(2) cr by simp
  show "parseInt z = Some (digitsVal z)"
    using isDigit_not_space [OF dc] isDigit_not_sign [OF dc]
    by (simp add: cr parseInt_def dc tw)
  have ns: "\<not> isWhiteSpace CHR ''-''" by (simp add: isWhiteSpace_def)
  show "parseInt (CHR ''-'' # z) = Some (- digitsVal z)"
    by (simp add: cr parseInt_def dc tw ns)
qed

lemma parseInt_digitsOf: "parseInt (digitsOf n) = Some (int n)"
  using parseInt_all_digits(1) [of "digitsOf n"] digitsOf_nonempty [of n] digitsOf_digits [of _ n]
  by (simp add: digitsVal_digitsOf)

lemma parseInt_minus_digitsOf: "parseInt (CHR ''-'' # digitsOf n) = Some (- int n)"
  using parseInt_all_digits(2) [of "digitsOf n"] digitsOf_nonempty [of n] digitsOf_digits [of _ n]
  by (simp add: digitsVal_digitsOf)

lemma parseInt_toString: "parseInt (toString n) = Some n"
  by (simp add: toString_def parseInt_digitsOf parseInt_minus_digitsOf)

lemma toString_nonempty: "toString n \<noteq> []"
  by (simp add: toString_def digitsOf_nonempty)

section \<open>Rounding\<close>

lemma ceil_div_ceiling: "ceil_div a b = \<lceil>real_of_int a / real_of_int b\<rceil>"
  by (simp add: ceil_div_def ceiling_divide_eq_div)

lemma floor_div_floor: "a div b = \<lfloor>real_of_int a / real_of_int b\<rfloor>"
  by (simp add: floor_divide_of_int_eq)

section \<open>The reward loop\<close>

lemma giftLoop_sum:
  "giftLoop l s c g i (m, b, n) =
     (m + sum_list (map (\<lambda>j. if 0 < c + j \<and> (c + j) mod 4 = 0 then l else s) [i..g]),
      b + int (length (filter (\<lambda>j. 0 < c + j \<and> (c + j) mod 4 = 0) [i..g])),
      n + int (length (filter (\<lambda>j. \<not> (0 < c + j \<and> (c + j) mod 4 = 0)) [i..g])))"
proof (induction l s c g i "(m, b, n)" arbitrary: m b n rule: giftLoop.induct)
  case (1 l s c g i m b n)
  show ?case
  proof (cases "i \<le> g")
    case False
    then show ?thesis by (simp add: giftLoop.simps [of l s c g i])
  next
    case True
    then have u: "[i..g] = i # [i + 1..g]" by (simp add: upto_rec1)
    show ?thesis
    proof (cases "0 < c + i \<and> (c + i) mod 4 = 0")
      case bonus: True
      have "giftLoop l s c g i (m, b, n) = giftLoop l s c g (i + 1) (m + l, b + 1, n)"
        using True bonus by (simp add: giftLoop.simps [of l s c g i] Let_def)
      also have "\<dots> = (m + l + sum_list (map (\<lambda>j. if 0 < c + j \<and> (c + j) mod 4 = 0 then l else s) [i + 1..g]),
      b + 1 + int (length (filter (\<lambda>j. 0 < c + j \<and> (c + j) mod 4 = 0) [i + 1..g])),
      n + int (length (filter (\<lambda>j. \<not> (0 < c + j \<and> (c + j) mod 4 = 0)) [i + 1..g])))"
        using "1.hyps"(1) [OF True refl] bonus by simp
      finally show ?thesis using bonus by (simp add: u)
    next
      case normal: False
      have "giftLoop l s c g i (m, b, n) = giftLoop l s c g (i + 1) (m + s, b, n + 1)"
        using True normal by (auto simp add: giftLoop.simps [of l s c g i] Let_def)
      also have "\<dots> = (m + s + sum_list (map (\<lambda>j. if 0 < c + j \<and> (c + j) mod 4 = 0 then l else s) [i + 1..g]),
      b + int (length (filter (\<lambda>j. 0 < c + j \<and> (c + j) mod 4 = 0) [i + 1..g])),
      n + 1 + int (length (filter (\<lambda>j. \<not> (0 < c + j \<and> (c + j) mod 4 = 0)) [i + 1..g])))"
        using "1.hyps"(2) [OF True refl] normal by simp
      finally show ?thesis using normal by (simp add: u)
    qed
  qed
qed

section \<open>The rest session controller\<close>

text \<open>
  Claim C4. Ending a rest session changes the balance by \<open>ceil(secondsRemaining / 60)\<close>
  when seconds remain and by \<open>floor(secondsRemaining / 60)\<close> when none do (a forfeit for
  overtime). With exactly zero seconds remaining the balance, the store and the
  notification trace are left as they are; otherwise one notification is shown. In every
  case the session ends and the counter is cleared.
\<close>

theorem endRest_refund_forfeit:
  "availableRestMinutes (handlePauseRest st) =
     availableRestMinutes st +
       (if restSecondsRemaining st > 0 then \<lceil>real_of_int (restSecondsRemaining st) / 60\<rceil>
        else \<lfloor>real_of_int (restSecondsRemaining st) / 60\<rfloor>)
   \<and> (if restSecondsRemaining st = 0
      then availableRestMinutes (handlePauseRest st) = availableRestMinutes st
           \<and> emitted (handlePauseRest st) = emitted st
           \<and> localStorage (handlePauseRest st) = localStorage st
      else emitted (handlePauseRest st) \<noteq> emitted st)
   \<and> \<not> isResting (handlePauseRest st) \<and> restSecondsRemaining (handlePauseRest st) = 0"
proof -
  let ?r = "restSecondsRemaining st"
  have c: "ceil_div ?r 60 = \<lceil>real_of_int ?r / 60\<rceil>"
    using ceil_div_ceiling [of ?r 60] by simp
  have f: "?r div 60 = \<lfloor>real_of_int ?r / 60\<rfloor>"
    using floor_div_floor [of ?r 60] by simp
  have pos: "?r > 0 \<Longrightarrow> ceil_div ?r 60 > 0"
    by (simp add: ceil_div_def)
  have neg: "?r < 0 \<Longrightarrow> ?r div 60 < 0"
    by linarith
  show ?thesis
    using pos neg unfolding c [symmetric] f [symmetric]
    by (cases "?r > 0"; cases "?r = 0") (auto simp add: handlePauseRest_def Let_def)
qed

text \<open>
  Ending at 30 seconds remaining returns one minute, ending 75 seconds into overtime
  takes two, and ending at zero changes nothing and shows nothing.
\<close>

theorem endRest_refund_forfeit_witness:
  "availableRestMinutes (handlePauseRest (fresh_state\<lparr> isResting := True, restSecondsRemaining := 30 \<rparr>))
     = availableRestMinutes fresh_state + 1
   \<and> availableRestMinutes (handlePauseRest (fresh_state\<lparr> isResting := True, restSecondsRemaining := - 75 \<rparr>))
     = availableRestMinutes fresh_state - 2
   \<and> availableRestMinutes (handlePauseRest (fresh_state\<lparr> isResting := True, restSecondsRemaining := 0 \<rparr>))
     = availableRestMinutes fresh_state
   \<and> emitted (handlePauseRest (fresh_state\<lparr> isResting := True, restSecondsRemaining := 0 \<rparr>)) = []"
  using endRest_refund_forfeit [of "fresh_state\<lparr> isResting := True, restSecondsRemaining := 30 \<rparr>"]
        endRest_refund_forfeit [of "fresh_state\<lparr> isResting := True, restSecondsRemaining := - 75 \<rparr>"]
        endRest_refund_forfeit [of "fresh_state\<lparr> isResting := True, restSecondsRemaining := 0 \<rparr>"]
  by (simp add: fresh_state_def handlePauseRest_def ceil_div_def)

text \<open>
  Claim C5. The use-rest command issued while no rest session is active starts one (and
  leaves the focus timer stopped). A positive balance is spent whole: the session lasts
  \<open>balance * 60\<close> seconds and the balance becomes zero. Otherwise five minutes are
  borrowed: the session lasts 300 seconds and the balance drops by five; ending that
  session at once returns the five minutes, so the balance is what it was.
\<close>

theorem useRest_spend_or_borrow:
  assumes "\<not> isResting st"
  shows "isResting (handleUseRest st) \<and> \<not> isRunning (handleUseRest st)
     \<and> (if availableRestMinutes st > 0
        then restSecondsRemaining (handleUseRest st) = availableRestMinutes st * 60
             \<and> availableRestMinutes (handleUseRest st) = 0
        else restSecondsRemaining (handleUseRest st) = 300
             \<and> availableRestMinutes (handleUseRest st) = availableRestMinutes st - 5)
     \<and> (if availableRestMinutes st \<le> 0
        then availableRestMinutes (handlePauseRest (handleUseRest st)) = availableRestMinutes st
        else True)"
  using assms
  by (auto simp add: handleUseRest_def handlePause_def handlePauseRest_def Let_def ceil_div_def)

text \<open>
  From a balance of zero the borrowed session is 300 seconds at balance \<open>-5\<close>, and ending
  it immediately restores zero; a balance of 12 gives a session of 720 seconds.
\<close>

theorem useRest_spend_or_borrow_witness:
  "\<not> isResting fresh_state
   \<and> restSecondsRemaining (handleUseRest fresh_state) = 300
   \<and> availableRestMinutes (handleUseRest fresh_state) = - 5
   \<and> availableRestMinutes (handlePauseRest (handleUseRest fresh_state)) = 0
   \<and> restSecondsRemaining (handleUseRest (fresh_state\<lparr> availableRestMinutes := 12 \<rparr>)) = 720
   \<and> availableRestMinutes (handleUseRest (fresh_state\<lparr> availableRestMinutes := 12 \<rparr>)) = 0"
  using useRest_spend_or_borrow [of fresh_state]
        useRest_spend_or_borrow [of "fresh_state\<lparr> availableRestMinutes := 12 \<rparr>"]
  by (simp add: fresh_state_def)

section \<open>The reward ledger\<close>

lemma reward_sum_pos:
  assumes "0 < (s::int)" and "0 < l" and "1 \<le> g"
  shows "0 < sum_list (map (\<lambda>j. if P j then l else s) [1..g])"
proof -
  have u: "[1..g] = 1 # [2..g]" using assms(3) by (simp add: upto_rec1)
  have "0 \<le> sum_list (map (\<lambda>j. if P j then l else s) [2..g])"
    by (rule sum_list_nonneg) (use assms in auto)
  then show ?thesis using assms by (simp add: u)
qed

lemma gift_effect_balance:
  "availableRestMinutes (gift_effect st) =
     (let totalDiff = pomodorosCompleted st - prevPomodorosRef st;
          manualCount = min totalDiff (manualUpdatesPending st);
          giftableCount = totalDiff - manualCount;
          credit = sum_list (map (\<lambda>i. if 0 < prevPomodorosRef st + manualCount + i
                                           \<and> (prevPomodorosRef st + manualCount + i) mod 4 = 0
                                         then longRestReward (settings st)
                                         else shortRestReward (settings st)) [1..giftableCount])
      in if 0 < totalDiff \<and> 0 < giftableCount \<and> 0 < credit
         then availableRestMinutes st + credit else availableRestMinutes st)"
  by (simp add: gift_effect_def giftLoop_sum Let_def)

text \<open>
  Claim C2. When the gift effect sees the cycle count raised from \<open>previousCycles\<close> to
  \<open>newCycles\<close>, it credits the balance with one reward per giftable cycle
  \<open>i = 1..giftableCount\<close>, judged at the absolute index
  \<open>previousCycles + manualCount + i\<close>: the bonus reward when that index is a positive
  multiple of 4, the normal reward otherwise. Without a raise nothing is credited. The
  rewards are positive, as the settings dialog ensures.
\<close>

theorem gift_effect_bonus_placement:
  assumes "0 < shortRestReward (settings st)" and "0 < longRestReward (settings st)"
  shows "availableRestMinutes (gift_effect st) =
     availableRestMinutes st +
       (let previousCycles = prevPomodorosRef st;
            newCycles = pomodorosCompleted st;
            manualCount = min (newCycles - previousCycles) (manualUpdatesPending st);
            giftableCount = newCycles - previousCycles - manualCount
        in if newCycles > previousCycles
           then sum_list (map (\<lambda>i. if 0 < previousCycles + manualCount + i
                                      \<and> (previousCycles + manualCount + i) mod 4 = 0
                                    then longRestReward (settings st)
                                    else shortRestReward (settings st)) [1..giftableCount])
           else 0)"
proof -
  let ?d = "pomodorosCompleted st - prevPomodorosRef st"
  let ?m = "min ?d (manualUpdatesPending st)"
  let ?g = "?d - ?m"
  let ?credit = "sum_list (map (\<lambda>i. if 0 < prevPomodorosRef st + ?m + i
                                           \<and> (prevPomodorosRef st + ?m + i) mod 4 = 0
                                         then longRestReward (settings st)
                                         else shortRestReward (settings st)) [1..?g])"
  have pos: "0 < ?g \<Longrightarrow> 0 < ?credit"
    using reward_sum_pos [OF assms, of ?g] by simp
  have zero: "\<not> 0 < ?g \<Longrightarrow> ?credit = 0"
    by simp
  show ?thesis
    using pos zero by (simp add: gift_effect_balance Let_def)
qed

text \<open>
  From 2 to 5 completed cycles with nothing pending, the indices 3, 4 and 5 earn
  normal + bonus + normal.
\<close>

theorem gift_effect_bonus_placement_witness:
  "0 < shortRestReward (settings fresh_state) \<and> 0 < longRestReward (settings fresh_state)
   \<and> availableRestMinutes
        (gift_effect (fresh_state\<lparr> prevPomodorosRef := 2, pomodorosCompleted := 5 \<rparr>))
      = availableRestMinutes fresh_state
        + (shortRestReward fixed_settings + longRestReward fixed_settings + shortRestReward fixed_settings)"
proof -
  have u: "[1..3::int] = [1, 2, 3]" by (simp add: upto_rec1)
  show ?thesis
    using gift_effect_bonus_placement [of "fresh_state\<lparr> prevPomodorosRef := 2, pomodorosCompleted := 5 \<rparr>"]
    by (simp add: fresh_state_def fixed_settings_def Let_def u)
qed

lemma gift_effect_pending:
  "manualUpdatesPending (gift_effect st) =
     (if prevPomodorosRef st < pomodorosCompleted st
      then manualUpdatesPending st
             - min (pomodorosCompleted st - prevPomodorosRef st) (manualUpdatesPending st)
      else manualUpdatesPending st)"
  by (auto simp add: gift_effect_def Let_def split: prod.splits)

lemma gift_effect_emitted_absorbed:
  "pomodorosCompleted st - prevPomodorosRef st \<le> manualUpdatesPending st
     \<Longrightarrow> emitted (gift_effect st) = emitted st"
  by (auto simp add: gift_effect_def Let_def split: prod.splits)

text \<open>
  Claim C3. On a raise of the cycle count the gift effect absorbs
  \<open>manualCount = min(totalDelta, pending)\<close> of the new cycles: the pending counter drops
  by \<open>manualCount\<close>, the reward loop tallies exactly \<open>totalDelta - manualCount\<close>
  cycles, and when every new cycle is absorbed the balance and the notification trace
  stay as they are.
\<close>

theorem gift_effect_manual_exclusion:
  assumes "prevPomodorosRef st < pomodorosCompleted st"
  shows "manualUpdatesPending (gift_effect st) =
           manualUpdatesPending st
             - min (pomodorosCompleted st - prevPomodorosRef st) (manualUpdatesPending st)
     \<and> (case giftLoop (longRestReward (settings st)) (shortRestReward (settings st))
               (prevPomodorosRef st
                  + min (pomodorosCompleted st - prevPomodorosRef st) (manualUpdatesPending st))
               (pomodorosCompleted st - prevPomodorosRef st
                  - min (pomodorosCompleted st - prevPomodorosRef st) (manualUpdatesPending st))
               1 (0, 0, 0)
         of (newRestMinutes, superGifts, normalGifts) \<Rightarrow>
            superGifts + normalGifts =
              pomodorosCompleted st - prevPomodorosRef st
                - min (pomodorosCompleted st - prevPomodorosRef st) (manualUpdatesPending st))
     \<and> (if pomodorosCompleted st - prevPomodorosRef st \<le> manualUpdatesPending st
        then availableRestMinutes (gift_effect st) = availableRestMinutes st
             \<and> emitted (gift_effect st) = emitted st
        else True)"
proof -
  let ?d = "pomodorosCompleted st - prevPomodorosRef st"
  let ?m = "min ?d (manualUpdatesPending st)"
  let ?P = "\<lambda>j. 0 < prevPomodorosRef st + ?m + j \<and> (prevPomodorosRef st + ?m + j) mod 4 = 0"
  have "length (filter ?P [1..?d - ?m]) + length (filter (\<lambda>j. \<not> ?P j) [1..?d - ?m])
          = length [1..?d - ?m]"
    by (rule sum_length_filter_compl)
  then have cnt: "int (length (filter ?P [1..?d - ?m])) + int (length (filter (\<lambda>j. \<not> ?P j) [1..?d - ?m]))
          = ?d - ?m"
    by (simp add: of_nat_add [symmetric] del: of_nat_add)
  show ?thesis
    using assms cnt
    by (simp add: gift_effect_pending gift_effect_balance gift_effect_emitted_absorbed
          giftLoop_sum Let_def)
qed

text \<open>
  One pending manual cycle and a raise from 3 to 4: nothing is credited, nothing is
  notified, and no manual cycle remains pending.
\<close>

theorem gift_effect_manual_exclusion_witness:
  "prevPomodorosRef (fresh_state\<lparr> prevPomodorosRef := 3, pomodorosCompleted := 4, manualUpdatesPending := 1 \<rparr>)
     < pomodorosCompleted (fresh_state\<lparr> prevPomodorosRef := 3, pomodorosCompleted := 4, manualUpdatesPending := 1 \<rparr>)
   \<and> manualUpdatesPending
        (gift_effect (fresh_state\<lparr> prevPomodorosRef := 3, pomodorosCompleted := 4, manualUpdatesPending := 1 \<rparr>)) = 0
   \<and> availableRestMinutes
        (gift_effect (fresh_state\<lparr> prevPomodorosRef := 3, pomodorosCompleted := 4, manualUpdatesPending := 1 \<rparr>))
       = availableRestMinutes fresh_state
   \<and> emitted
        (gift_effect (fresh_state\<lparr> prevPomodorosRef := 3, pomodorosCompleted := 4, manualUpdatesPending := 1 \<rparr>)) = []"
  using gift_effect_manual_exclusion
          [of "fresh_state\<lparr> prevPomodorosRef := 3, pomodorosCompleted := 4, manualUpdatesPending := 1 \<rparr>"]
  by (simp add: fresh_state_def)

section \<open>Initialization from the store\<close>

lemma getItemOr0_missing: "ls k = None \<or> ls k = Some [] \<Longrightarrow> getItemOr0 ls k = ''0''"
  by (auto simp add: getItemOr0_def)

lemma getItemOr0_upd_same: "v \<noteq> [] \<Longrightarrow> getItemOr0 (ls(k \<mapsto> v)) k = v"
  by (simp add: getItemOr0_def)

lemma getItemOr0_upd_other: "k' \<noteq> k \<Longrightarrow> getItemOr0 (ls(k := v)) k' = getItemOr0 ls k'"
  by (simp add: getItemOr0_def)

lemma parseInt_0: "parseInt ''0'' = Some 0"
  by (simp add: parseInt_def isWhiteSpace_def isDigit_def digitsVal_def digitVal_def)

text \<open>
  Claim C9, as stated, fails for a stored value that is present but not numeric:
  \<open>parseInt\<close> yields \<open>NaN\<close>, which no step of \<open>getInitialState\<close> replaces, so the
  counters of the initial state are \<open>NaN\<close> rather than 0.
\<close>

theorem getInitialState_malformed_counterexample:
  "seconds (getInitialState 1500
      [Key_pomodoroAccumulatedSeconds \<mapsto> ''abc'', Key_pomodorosCompleted \<mapsto> ''two'',
       Key_availableRestMinutes \<mapsto> ''NaN''] 0) = None
   \<and> pomodoros (getInitialState 1500
      [Key_pomodoroAccumulatedSeconds \<mapsto> ''abc'', Key_pomodorosCompleted \<mapsto> ''two'',
       Key_availableRestMinutes \<mapsto> ''NaN''] 0) = None
   \<and> restMinutes (getInitialState 1500
      [Key_pomodoroAccumulatedSeconds \<mapsto> ''abc'', Key_pomodorosCompleted \<mapsto> ''two'',
       Key_availableRestMinutes \<mapsto> ''NaN''] 0) = None"
  by (simp add: getInitialState_def getItemOr0_def parseInt_def isWhiteSpace_def isDigit_def
        jadd_def jsub_def jlt_def jgt_def jmax_def jfloor_div_def Let_def)

text \<open>
  Claim C9, amended. A snapshot field that is missing (absent, or the empty string) is
  read as its default: the initial state is the one computed from the same store with
  \<open>'0'\<close> written under that key, and a running flag that is anything but \<open>'true'\<close>
  reads as \<open>false\<close>. An empty store gives the all-zero, not-running state.
  \<open>getInitialState\<close> returns a value for every store.
\<close>

theorem getInitialState_missing_defaults:
  "(ls k = None \<or> ls k = Some [] \<longrightarrow> k \<noteq> Key_pomodoroIsRunning \<longrightarrow>
       getInitialState d ls now = getInitialState d (ls(k \<mapsto> ''0'')) now)
   \<and> (ls Key_pomodoroIsRunning \<noteq> Some ''true'' \<longrightarrow>
       \<not> wasRunning (getInitialState d ls now)
       \<and> getInitialState d ls now = getInitialState d (ls(Key_pomodoroIsRunning \<mapsto> ''false'')) now)
   \<and> getInitialState d Map.empty now
       = \<lparr> pomodoros = Some 0, seconds = Some 0, wasRunning = False, restMinutes = Some 0 \<rparr>"
proof (intro conjI impI)
  assume m: "ls k = None \<or> ls k = Some []" and k: "k \<noteq> Key_pomodoroIsRunning"
  have same: "getItemOr0 (ls(k \<mapsto> ''0'')) k' = getItemOr0 ls k'" for k'
    using m by (cases "k' = k") (auto simp add: getItemOr0_def)
  have flag: "(ls(k \<mapsto> ''0'')) Key_pomodoroIsRunning = ls Key_pomodoroIsRunning"
    using k by simp
  show "getInitialState d ls now = getInitialState d (ls(k \<mapsto> ''0'')) now"
    unfolding getInitialState_def same flag ..
next
  assume f: "ls Key_pomodoroIsRunning \<noteq> Some ''true''"
  show "\<not> wasRunning (getInitialState d ls now)"
    using f by (simp add: getInitialState_def Let_def)
  show "getInitialState d ls now = getInitialState d (ls(Key_pomodoroIsRunning \<mapsto> ''false'')) now"
    using f by (simp add: getInitialState_def getItemOr0_upd_other)
next
  show "getInitialState d Map.empty now
       = \<lparr> pomodoros = Some 0, seconds = Some 0, wasRunning = False, restMinutes = Some 0 \<rparr>"
    by (simp add: getInitialState_def getItemOr0_def parseInt_0 jlt_def jmax_def jfloor_div_def Let_def)
qed

text \<open>
  The empty store: the missing balance reads as a stored \<open>'0'\<close>, the missing flag as
  \<open>'false'\<close>, and all counters are zero.
\<close>

theorem getInitialState_missing_defaults_witness:
  "(Map.empty :: storage) Key_availableRestMinutes = None
   \<and> Key_availableRestMinutes \<noteq> Key_pomodoroIsRunning
   \<and> (Map.empty :: storage) Key_pomodoroIsRunning \<noteq> Some ''true''
   \<and> getInitialState 1500 Map.empty 0 = getInitialState 1500 [Key_availableRestMinutes \<mapsto> ''0''] 0
   \<and> getInitialState 1500 Map.empty 0 = getInitialState 1500 [Key_pomodoroIsRunning \<mapsto> ''false''] 0
   \<and> getInitialState 1500 Map.empty 0
       = \<lparr> pomodoros = Some 0, seconds = Some 0, wasRunning = False, restMinutes = Some 0 \<rparr>"
  using getInitialState_missing_defaults [of Map.empty Key_availableRestMinutes 1500 0]
  by (simp add: getInitialState_def getItemOr0_def parseInt_0 jlt_def jmax_def jfloor_div_def)

section \<open>Elapsed-time reconciliation\<close>

lemma getInitialState_numeric:
  assumes "parseInt (getItemOr0 ls Key_pomodoroAccumulatedSeconds) = Some a"
    and "parseInt (getItemOr0 ls Key_pomodoroStartTime) = Some b"
    and "parseInt (getItemOr0 ls Key_pomodorosCompleted) = Some p"
    and "parseInt (getItemOr0 ls Key_availableRestMinutes) = Some r"
  shows "getInitialState d ls now =
     \<lparr> pomodoros = Some (max p (max 0 (if ls Key_pomodoroIsRunning = Some ''true'' \<and> 0 < b
                                        then a + (now - b) div 1000 else a) div d)),
       seconds = Some (max 0 (if ls Key_pomodoroIsRunning = Some ''true'' \<and> 0 < b
                              then a + (now - b) div 1000 else a)),
       wasRunning = (ls Key_pomodoroIsRunning = Some ''true''),
       restMinutes = Some r \<rparr>"
  using assms
  by (simp add: getInitialState_def jadd_def jsub_def jlt_def jgt_def jmax_def jfloor_div_def
        Let_def max_def)

lemma seconds_nonneg: "seconds (getInitialState d ls now) = Some t \<Longrightarrow> 0 \<le> t"
  by (auto simp add: getInitialState_def jlt_def Let_def split: if_splits option.splits)

text \<open>
  Claim C6, as stated, fails. On resume from the background \<open>syncStateFromStorage\<close>
  adds the wall-clock delta unclamped, so a clock set back by 20 seconds turns a
  checkpoint of 10 seconds into a total of \<open>-10\<close>. At startup the total is clamped, not
  the delta: a checkpoint of 100 seconds and a delta of \<open>-50\<close> give 50, below the
  checkpoint.
\<close>

theorem reconciliation_counterexample:
  "syncStateFromStorage
      [Key_pomodoroIsRunning \<mapsto> ''true'', Key_pomodoroAccumulatedSeconds \<mapsto> ''10'',
       Key_pomodoroStartTime \<mapsto> ''50000''] 30000 = Some (Some (- 10))
   \<and> seconds (getInitialState 1500
      [Key_pomodoroIsRunning \<mapsto> ''true'', Key_pomodoroAccumulatedSeconds \<mapsto> ''100'',
       Key_pomodoroStartTime \<mapsto> ''60000''] 10000) = Some 50"
  by (simp add: syncStateFromStorage_def getInitialState_def getItemOr0_def parseInt_def
        isWhiteSpace_def isDigit_def digitsVal_def digitVal_def
        jadd_def jsub_def jlt_def jgt_def jmax_def jfloor_div_def Let_def)

text \<open>
  Claim C6, amended. At startup the reconciled total is never negative: it is
  \<open>max(0, checkpoint + floor((now - start) / 1000))\<close> when the snapshot was running with
  a positive start timestamp, and \<open>max(0, checkpoint)\<close> otherwise (the total is
  clamped, the delta is not). When the wall clock has not gone back behind the start
  timestamp, the total recomputed at startup (from a non-negative checkpoint) and on
  resume from the background is at least the checkpoint.
\<close>

theorem reconciliation_bounds:
  "(seconds (getInitialState d ls now) = Some t \<longrightarrow> 0 \<le> t)
   \<and> (parseInt (getItemOr0 ls Key_pomodoroAccumulatedSeconds) = Some a
        \<and> parseInt (getItemOr0 ls Key_pomodoroStartTime) = Some b
      \<longrightarrow> seconds (getInitialState d ls now)
            = Some (max 0 (if ls Key_pomodoroIsRunning = Some ''true'' \<and> 0 < b
                           then a + (now - b) div 1000 else a))
          \<and> (0 \<le> a \<and> b \<le> now \<longrightarrow> seconds (getInitialState d ls now) = Some t \<longrightarrow> a \<le> t)
          \<and> (b \<le> now \<longrightarrow> syncStateFromStorage ls now = Some (Some v) \<longrightarrow> a \<le> v))"
proof (intro conjI impI)
  assume "seconds (getInitialState d ls now) = Some t"
  then show "0 \<le> t" by (rule seconds_nonneg)
next
  assume p: "parseInt (getItemOr0 ls Key_pomodoroAccumulatedSeconds) = Some a
        \<and> parseInt (getItemOr0 ls Key_pomodoroStartTime) = Some b"
  show s: "seconds (getInitialState d ls now)
            = Some (max 0 (if ls Key_pomodoroIsRunning = Some ''true'' \<and> 0 < b
                           then a + (now - b) div 1000 else a))"
    using p
    by (simp add: getInitialState_def jadd_def jsub_def jlt_def jgt_def jfloor_div_def
        Let_def max_def)
  {
    assume "0 \<le> a \<and> b \<le> now" and "seconds (getInitialState d ls now) = Some t"
    moreover have "0 \<le> (now - b) div 1000" if "b \<le> now"
      using that by (simp add: pos_imp_zdiv_nonneg_iff)
    ultimately show "a \<le> t" using s by (auto split: if_splits)
  }
  {
    assume le: "b \<le> now" and v: "syncStateFromStorage ls now = Some (Some v)"
    have "0 \<le> (now - b) div 1000"
      using le by (simp add: pos_imp_zdiv_nonneg_iff)
    then show "a \<le> v"
      using v p
      by (auto simp add: syncStateFromStorage_def jadd_def jsub_def jfloor_div_def Let_def
            split: if_splits)
  }
qed

text \<open>
  A snapshot running since 60000 ms with a checkpoint of 100 seconds, read at 90000 ms:
  both paths give 130 seconds.
\<close>

theorem reconciliation_bounds_witness:
  "seconds (getInitialState 1500
      [Key_pomodoroIsRunning \<mapsto> ''true'', Key_pomodoroAccumulatedSeconds \<mapsto> ''100'',
       Key_pomodoroStartTime \<mapsto> ''60000''] 90000) = Some 130
   \<and> (0::int) \<le> 130
   \<and> parseInt (getItemOr0 [Key_pomodoroIsRunning \<mapsto> ''true'', Key_pomodoroAccumulatedSeconds \<mapsto> ''100'',
       Key_pomodoroStartTime \<mapsto> ''60000''] Key_pomodoroAccumulatedSeconds) = Some 100
   \<and> parseInt (getItemOr0 [Key_pomodoroIsRunning \<mapsto> ''true'', Key_pomodoroAccumulatedSeconds \<mapsto> ''100'',
       Key_pomodoroStartTime \<mapsto> ''60000''] Key_pomodoroStartTime) = Some 60000
   \<and> (60000::int) \<le> 90000
   \<and> syncStateFromStorage [Key_pomodoroIsRunning \<mapsto> ''true'', Key_pomodoroAccumulatedSeconds \<mapsto> ''100'',
       Key_pomodoroStartTime \<mapsto> ''60000''] 90000 = Some (Some 130)
   \<and> (100::int) \<le> 130"
  using reconciliation_bounds [of 1500 "[Key_pomodoroIsRunning \<mapsto> ''true'', Key_pomodoroAccumulatedSeconds \<mapsto> ''100'',
       Key_pomodoroStartTime \<mapsto> ''60000'']" 90000 130 100 60000 130]
  by (simp add: syncStateFromStorage_def getInitialState_def getItemOr0_def parseInt_def
        isWhiteSpace_def isDigit_def digitsVal_def digitVal_def
        jadd_def jsub_def jlt_def jgt_def jmax_def jfloor_div_def Let_def)

section \<open>What the effects change\<close>

lemma duration_pos: "0 < POMODORO_DURATION_SECONDS s"
  by (simp add: POMODORO_DURATION_SECONDS_def max_def)

lemma gift_effect_same [simp]:
  "settings (gift_effect st) = settings st"
  "pomodorosCompleted (gift_effect st) = pomodorosCompleted st"
  "isRunning (gift_effect st) = isRunning st"
  "totalSeconds (gift_effect st) = totalSeconds st"
  "isResting (gift_effect st) = isResting st"
  "restSecondsRemaining (gift_effect st) = restSecondsRemaining st"
  "prevPomodorosRef (gift_effect st) = pomodorosCompleted st"
  by (simp_all add: gift_effect_def Let_def split: prod.splits)

lemma gift_effect_store:
  "localStorage (gift_effect st) Key_pomodorosCompleted = Some (toString (pomodorosCompleted st))"
  "localStorage (gift_effect st) Key_pomodoroIsRunning = localStorage st Key_pomodoroIsRunning"
  "localStorage (gift_effect st) Key_pomodoroAccumulatedSeconds = localStorage st Key_pomodoroAccumulatedSeconds"
  "localStorage (gift_effect st) Key_pomodoroStartTime = localStorage st Key_pomodoroStartTime"
  by (simp_all add: gift_effect_def Let_def split: prod.splits)

lemma gift_effect_store_rest:
  "localStorage (gift_effect st) Key_availableRestMinutes =
     (if availableRestMinutes (gift_effect st) = availableRestMinutes st
      then localStorage st Key_availableRestMinutes
      else Some (toString (availableRestMinutes (gift_effect st))))"
  by (simp add: gift_effect_def Let_def split: prod.splits)

lemma getItemOr0_cong: "ls k = ls' k \<Longrightarrow> getItemOr0 ls k = getItemOr0 ls' k"
  by (simp add: getItemOr0_def)

lemma getItemOr0_toString: "ls k = Some (toString n) \<Longrightarrow> parseInt (getItemOr0 ls k) = Some n"
  by (simp add: getItemOr0_def toString_nonempty parseInt_toString)

lemma gift_effect_store_ok:
  assumes "store_ok st"
  shows "store_ok (gift_effect st)"
proof -
  have r: "parseInt (getItemOr0 (localStorage (gift_effect st)) Key_availableRestMinutes)
            = Some (availableRestMinutes (gift_effect st))"
  proof (cases "availableRestMinutes (gift_effect st) = availableRestMinutes st")
    case True
    then have "localStorage (gift_effect st) Key_availableRestMinutes
                 = localStorage st Key_availableRestMinutes"
      by (simp add: gift_effect_store_rest)
    then show ?thesis
      using assms True getItemOr0_cong [of "localStorage (gift_effect st)" Key_availableRestMinutes "localStorage st"]
      by (simp add: store_ok_def)
  next
    case False
    then show ?thesis
      by (simp add: gift_effect_store_rest getItemOr0_toString)
  qed
  show ?thesis
    using assms r
    by (simp add: store_ok_def gift_effect_store getItemOr0_toString)
qed

lemma gift_effect_pending_zero:
  assumes "manualUpdatesPending st = 0
           \<or> (0 < manualUpdatesPending st
               \<and> manualUpdatesPending st \<le> pomodorosCompleted st - prevPomodorosRef st)"
  shows "manualUpdatesPending (gift_effect st) = 0"
  using assms by (auto simp add: gift_effect_pending)

lemma derive_effect_same [simp]:
  "settings (derive_effect st) = settings st"
  "availableRestMinutes (derive_effect st) = availableRestMinutes st"
  "isRunning (derive_effect st) = isRunning st"
  "totalSeconds (derive_effect st) = totalSeconds st"
  "isResting (derive_effect st) = isResting st"
  "restSecondsRemaining (derive_effect st) = restSecondsRemaining st"
  "prevPomodorosRef (derive_effect st) = prevPomodorosRef st"
  "manualUpdatesPending (derive_effect st) = manualUpdatesPending st"
  "localStorage (derive_effect st) = localStorage st"
  "emitted (derive_effect st) = emitted st"
  by (simp_all add: derive_effect_def Let_def)

lemma derive_effect_count:
  "pomodorosCompleted (derive_effect st) =
     max (pomodorosCompleted st) (totalSeconds st div POMODORO_DURATION_SECONDS (settings st))"
  by (simp add: derive_effect_def Let_def max_def)

lemma rest_finished_effect_same [simp]:
  "settings (rest_finished_effect st) = settings st"
  "pomodorosCompleted (rest_finished_effect st) = pomodorosCompleted st"
  "availableRestMinutes (rest_finished_effect st) = availableRestMinutes st"
  "isRunning (rest_finished_effect st) = isRunning st"
  "totalSeconds (rest_finished_effect st) = totalSeconds st"
  "isResting (rest_finished_effect st) = isResting st"
  "restSecondsRemaining (rest_finished_effect st) = restSecondsRemaining st"
  "prevPomodorosRef (rest_finished_effect st) = prevPomodorosRef st"
  "manualUpdatesPending (rest_finished_effect st) = manualUpdatesPending st"
  "localStorage (rest_finished_effect st) = localStorage st"
  by (simp_all add: rest_finished_effect_def)

lemma store_ok_derive [simp]: "store_ok (derive_effect st) = store_ok st"
  by (simp add: store_ok_def)

lemma store_ok_rest_finished [simp]: "store_ok (rest_finished_effect st) = store_ok st"
  by (simp add: store_ok_def)

section \<open>The effects settle the state\<close>

lemma effects_pass_same [simp]:
  "settings (effects_pass old new) = settings new"
  "isRunning (effects_pass old new) = isRunning new"
  "totalSeconds (effects_pass old new) = totalSeconds new"
  "isResting (effects_pass old new) = isResting new"
  "restSecondsRemaining (effects_pass old new) = restSecondsRemaining new"
  by (simp_all add: effects_pass_def Let_def)

lemma effects_pass_count:
  "pomodorosCompleted (effects_pass old new) =
     (if totalSeconds new \<noteq> totalSeconds old
         \<or> pomodorosCompleted new \<noteq> pomodorosCompleted old
         \<or> POMODORO_DURATION_SECONDS (settings new) \<noteq> POMODORO_DURATION_SECONDS (settings old)
      then max (pomodorosCompleted new) (totalSeconds new div POMODORO_DURATION_SECONDS (settings new))
      else pomodorosCompleted new)"
  by (simp add: effects_pass_def Let_def derive_effect_count)

lemma effects_pass_count_mono: "pomodorosCompleted new \<le> pomodorosCompleted (effects_pass old new)"
  by (simp add: effects_pass_count)

lemma run_effects_same [simp]:
  "settings (run_effects old new) = settings new"
  "isRunning (run_effects old new) = isRunning new"
  "totalSeconds (run_effects old new) = totalSeconds new"
  "isResting (run_effects old new) = isResting new"
  "restSecondsRemaining (run_effects old new) = restSecondsRemaining new"
  by (simp_all add: run_effects_def Let_def)

lemma run_effects_count_mono: "pomodorosCompleted new \<le> pomodorosCompleted (run_effects old new)"
proof -
  have "pomodorosCompleted new \<le> pomodorosCompleted (effects_pass old new)"
    by (rule effects_pass_count_mono)
  moreover have "pomodorosCompleted (effects_pass old new)
                   \<le> pomodorosCompleted (effects_pass new (effects_pass old new))"
    by (rule effects_pass_count_mono)
  ultimately show ?thesis by (simp add: run_effects_def Let_def)
qed

lemma effects_pass_store_ok:
  assumes "store_ok new"
  shows "store_ok (effects_pass old new)"
  using assms by (simp add: effects_pass_def Let_def gift_effect_store_ok)

lemma effects_pass_prev:
  "prevPomodorosRef (effects_pass old new) =
     (if pomodorosCompleted new \<noteq> pomodorosCompleted old
         \<or> longRestReward (settings new) \<noteq> longRestReward (settings old)
         \<or> shortRestReward (settings new) \<noteq> shortRestReward (settings old)
      then pomodorosCompleted new else prevPomodorosRef new)"
  by (simp add: effects_pass_def Let_def)

lemma effects_pass_pending:
  "manualUpdatesPending (effects_pass old new) =
     (if pomodorosCompleted new \<noteq> pomodorosCompleted old
         \<or> longRestReward (settings new) \<noteq> longRestReward (settings old)
         \<or> shortRestReward (settings new) \<noteq> shortRestReward (settings old)
      then manualUpdatesPending (gift_effect new) else manualUpdatesPending new)"
  by (simp add: effects_pass_def Let_def)

lemma effects_pass_handled:
  assumes "handled old new"
  shows "store_ok (effects_pass old new)"
    and "prevPomodorosRef (effects_pass old new) = pomodorosCompleted new"
    and "manualUpdatesPending (effects_pass old new) = 0"
    and "totalSeconds new div POMODORO_DURATION_SECONDS (settings new)
           \<le> pomodorosCompleted (effects_pass old new)"
    and "0 \<le> pomodorosCompleted (effects_pass old new)"
proof -
  show "store_ok (effects_pass old new)"
    using assms by (simp add: handled_def effects_pass_store_ok)
  show "prevPomodorosRef (effects_pass old new) = pomodorosCompleted new"
    using assms by (simp add: handled_def effects_pass_prev)
  have "manualUpdatesPending (gift_effect new) = 0"
    using assms by (intro gift_effect_pending_zero) (auto simp add: handled_def)
  then show "manualUpdatesPending (effects_pass old new) = 0"
    using assms by (auto simp add: handled_def effects_pass_pending)
  show "totalSeconds new div POMODORO_DURATION_SECONDS (settings new)
           \<le> pomodorosCompleted (effects_pass old new)"
    using assms by (auto simp add: handled_def effects_pass_count)
  show "0 \<le> pomodorosCompleted (effects_pass old new)"
    using assms effects_pass_count_mono [of new old] by (simp add: handled_def)
qed

lemma second_pass:
  assumes "store_ok c" and "manualUpdatesPending c = 0"
    and "pomodorosCompleted c \<noteq> pomodorosCompleted new"
    and "totalSeconds c div POMODORO_DURATION_SECONDS (settings c) \<le> pomodorosCompleted c"
  shows "store_ok (effects_pass new c)"
    and "prevPomodorosRef (effects_pass new c) = pomodorosCompleted c"
    and "manualUpdatesPending (effects_pass new c) = 0"
    and "pomodorosCompleted (effects_pass new c) = pomodorosCompleted c"
proof -
  show "store_ok (effects_pass new c)"
    using assms(1) by (rule effects_pass_store_ok)
  show "prevPomodorosRef (effects_pass new c) = pomodorosCompleted c"
    using assms(3) by (simp add: effects_pass_prev)
  show "manualUpdatesPending (effects_pass new c) = 0"
    using assms(2,3) by (simp add: effects_pass_pending gift_effect_pending_zero)
  show "pomodorosCompleted (effects_pass new c) = pomodorosCompleted c"
    using assms(3,4) by (simp add: effects_pass_count)
qed

lemma run_effects_good:
  assumes "handled old new"
  shows "store_ok (run_effects old new) \<and> settled (run_effects old new)"
proof -
  let ?c = "effects_pass old new"
  note h = effects_pass_handled [OF assms]
  have x: "isRunning new \<longrightarrow> \<not> isResting new"
    using assms by (simp add: handled_def)
  show ?thesis
  proof (cases "pomodorosCompleted ?c = pomodorosCompleted new")
    case True
    then have "run_effects old new = ?c" by (simp add: run_effects_def Let_def)
    then show ?thesis using h True x by (simp add: settled_def)
  next
    case False
    then have r: "run_effects old new = effects_pass new ?c" by (simp add: run_effects_def Let_def)
    have le: "totalSeconds ?c div POMODORO_DURATION_SECONDS (settings ?c) \<le> pomodorosCompleted ?c"
      using h(4) by simp
    note s = second_pass [OF h(1) h(3) False le]
    show ?thesis
      unfolding r using s h(5) le x by (simp add: settled_def)
  qed
qed

section \<open>Every handler leaves the state ready for the effects\<close>

lemma handled_Tick:
  assumes "store_ok st" and "settled st"
  shows "handled st (handleMainTick st)"
  using assms by (simp add: handled_def settled_def store_ok_def handleMainTick_def)

lemma handled_RestTick:
  assumes "store_ok st" and "settled st"
  shows "handled st (handleRestTick st)"
  using assms by (simp add: handled_def settled_def store_ok_def handleRestTick_def)

lemma handled_Visibility:
  assumes "store_ok st" and "settled st" and "handleVisibilityChange now st = Some st'"
  shows "handled st st'"
  using assms
  by (auto simp add: handled_def settled_def store_ok_def handleVisibilityChange_def
        split: if_splits option.splits)

lemma handled_StartResume:
  assumes "store_ok st" and "settled st" and "\<not> isResting st"
  shows "handled st (handleStartResume now st)"
  using assms
  by (simp add: handled_def settled_def store_ok_def handleStartResume_def getItemOr0_def)

lemma handled_Pause:
  assumes "store_ok st" and "settled st"
  shows "handled st (handlePause st)"
  using assms
  by (simp add: handled_def settled_def store_ok_def handlePause_def getItemOr0_def Let_def)

lemma handled_ResetTimer:
  assumes "store_ok st" and "settled st"
  shows "handled st (handleResetTimer st)"
  using assms
  by (simp add: handled_def settled_def store_ok_def handleResetTimer_def getItemOr0_def)

lemma handled_ResetPomodoros:
  assumes "store_ok st" and "settled st"
  shows "handled st (handleResetPomodoros now st)"
  using assms
  by (simp add: handled_def settled_def store_ok_def handleResetPomodoros_def getItemOr0_def Let_def)

lemma handled_ResetRestMinutes:
  assumes "store_ok st" and "settled st"
  shows "handled st (handleResetRestMinutes st)"
  using assms
  by (simp add: handled_def settled_def store_ok_def handleResetRestMinutes_def getItemOr0_def
        parseInt_0)

lemma handled_UseRest:
  assumes "store_ok st" and "settled st"
  shows "handled st (handleUseRest st)"
  using assms
  by (simp add: handled_def settled_def store_ok_def handleUseRest_def handlePause_def
        getItemOr0_def parseInt_0 toString_nonempty parseInt_toString Let_def)

lemma handled_EndRest:
  assumes "store_ok st" and "settled st"
  shows "handled st (handlePauseRest st)"
  using assms
  by (simp add: handled_def settled_def store_ok_def handlePauseRest_def
        getItemOr0_def toString_nonempty parseInt_toString Let_def)

lemma handled_AddPomodoro:
  assumes "store_ok st" and "settled st"
  shows "handled st (handleAddPomodoro now st)"
  using assms
  by (simp add: handled_def settled_def store_ok_def handleAddPomodoro_def getItemOr0_def Let_def)

lemma handled_RemovePomodoro:
  assumes "store_ok st" and "settled st"
  shows "handled st (handleRemovePomodoro now st)"
  using assms
  by (simp add: handled_def settled_def store_ok_def handleRemovePomodoro_def getItemOr0_def Let_def)

lemma handled_AddRestMinutes:
  assumes "store_ok st" and "settled st"
  shows "handled st (handleAddRestMinutes n st)"
  using assms
  by (simp add: handled_def settled_def store_ok_def handleAddRestMinutes_def
        getItemOr0_def toString_nonempty parseInt_toString Let_def)

lemma handled_RemoveRestMinutes:
  assumes "store_ok st" and "settled st"
  shows "handled st (handleRemoveRestMinutes n st)"
  using assms
  by (simp add: handled_def settled_def store_ok_def handleRemoveRestMinutes_def
        getItemOr0_def toString_nonempty parseInt_toString Let_def)

lemma handled_SaveSettings:
  assumes "store_ok st" and "settled st"
  shows "handled st (handleSaveSettings ns st)"
  using assms
  by (simp add: handled_def settled_def store_ok_def handleSaveSettings_def)

section \<open>Mounting and stepping keep the invariants\<close>

lemma gift_effect_no_raise:
  "pomodorosCompleted st \<le> prevPomodorosRef st \<Longrightarrow>
     gift_effect st =
       st\<lparr> localStorage :=
              (localStorage st)(Key_pomodorosCompleted \<mapsto> toString (pomodorosCompleted st)),
           prevPomodorosRef := pomodorosCompleted st \<rparr>"
  by (simp add: gift_effect_def Let_def)

lemma derive_effect_no_raise:
  "totalSeconds st div POMODORO_DURATION_SECONDS (settings st) \<le> pomodorosCompleted st \<Longrightarrow>
     derive_effect st = st"
  by (simp add: derive_effect_def Let_def)

lemma rest_finished_effect_idle: "\<not> isResting st \<Longrightarrow> rest_finished_effect st = st"
  by (simp add: rest_finished_effect_def)

lemma mount_from_initial_values:
  assumes iv: "getInitialState (POMODORO_DURATION_SECONDS s) ls now =
      \<lparr> pomodoros = Some q, seconds = Some t, wasRunning = w, restMinutes = Some r \<rparr>"
    and le: "t div POMODORO_DURATION_SECONDS s \<le> q"
  shows "mount s ls now =
     Some \<lparr> settings = s, pomodorosCompleted = q, availableRestMinutes = r,
            isRunning = w, totalSeconds = t, isResting = False, restSecondsRemaining = 0,
            prevPomodorosRef = q, manualUpdatesPending = 0,
            localStorage = ls(Key_pomodorosCompleted \<mapsto> toString q),
            emitted = [] \<rparr>"
proof -
  let ?st0 = "\<lparr> settings = s, pomodorosCompleted = q, availableRestMinutes = r,
            isRunning = w, totalSeconds = t, isResting = False, restSecondsRemaining = 0,
            prevPomodorosRef = q, manualUpdatesPending = 0,
            localStorage = ls, emitted = [] \<rparr>"
  let ?st1 = "\<lparr> settings = s, pomodorosCompleted = q, availableRestMinutes = r,
            isRunning = w, totalSeconds = t, isResting = False, restSecondsRemaining = 0,
            prevPomodorosRef = q, manualUpdatesPending = 0,
            localStorage = ls(Key_pomodorosCompleted \<mapsto> toString q),
            emitted = [] \<rparr>"
  have g: "gift_effect ?st0 = ?st1"
    by (simp add: gift_effect_no_raise)
  have d: "derive_effect ?st1 = ?st1"
    by (rule derive_effect_no_raise) (simp add: le)
  have f: "rest_finished_effect ?st1 = ?st1"
    by (rule rest_finished_effect_idle) simp
  show ?thesis
    unfolding mount_def iv by (simp add: g d f del: fun_upd_apply)
qed

lemma mount_numeric:
  fixes ls :: storage and now a b p r :: int and s :: settings
  assumes "parseInt (getItemOr0 ls Key_pomodoroAccumulatedSeconds) = Some a"
    and "parseInt (getItemOr0 ls Key_pomodoroStartTime) = Some b"
    and "parseInt (getItemOr0 ls Key_pomodorosCompleted) = Some p"
    and "parseInt (getItemOr0 ls Key_availableRestMinutes) = Some r"
  defines "t \<equiv> max 0 (if ls Key_pomodoroIsRunning = Some ''true'' \<and> 0 < b
                        then a + (now - b) div 1000 else a)"
  defines "q \<equiv> max p (t div POMODORO_DURATION_SECONDS s)"
  shows "mount s ls now =
     Some \<lparr> settings = s, pomodorosCompleted = q, availableRestMinutes = r,
            isRunning = (ls Key_pomodoroIsRunning = Some ''true''),
            totalSeconds = t, isResting = False, restSecondsRemaining = 0,
            prevPomodorosRef = q, manualUpdatesPending = 0,
            localStorage = ls(Key_pomodorosCompleted \<mapsto> toString q),
            emitted = [] \<rparr>"
proof -
  have iv: "getInitialState (POMODORO_DURATION_SECONDS s) ls now =
      \<lparr> pomodoros = Some q, seconds = Some t,
        wasRunning = (ls Key_pomodoroIsRunning = Some ''true''), restMinutes = Some r \<rparr>"
    unfolding q_def t_def by (rule getInitialState_numeric [OF assms(1-4)])
  show ?thesis
    by (rule mount_from_initial_values [OF iv]) (simp add: q_def)
qed

lemma getInitialState_fields:
  "wasRunning (getInitialState d ls now) = (ls Key_pomodoroIsRunning = Some ''true'')"
  "restMinutes (getInitialState d ls now) = parseInt (getItemOr0 ls Key_availableRestMinutes)"
  "pomodoros (getInitialState d ls now) =
     jmax (parseInt (getItemOr0 ls Key_pomodorosCompleted))
          (jfloor_div (seconds (getInitialState d ls now)) d)"
  by (simp_all add: getInitialState_def Let_def)

lemma mount_good:
  assumes m: "mount s ls now = Some st"
  shows "store_ok st \<and> settled st"
proof -
  let ?d = "POMODORO_DURATION_SECONDS s"
  let ?iv = "getInitialState ?d ls now"
  obtain q t r where q: "pomodoros ?iv = Some q" and t: "seconds ?iv = Some t"
    and r: "restMinutes ?iv = Some r"
    using m by (auto simp add: mount_def Let_def split: option.splits)
  have iv: "?iv = \<lparr> pomodoros = Some q, seconds = Some t,
                     wasRunning = (ls Key_pomodoroIsRunning = Some ''true''),
                     restMinutes = Some r \<rparr>"
    using q t r getInitialState_fields(1) [of ?d ls now] by (cases ?iv) simp
  obtain p where p: "parseInt (getItemOr0 ls Key_pomodorosCompleted) = Some p"
    and qp: "q = max p (t div ?d)"
    using q t getInitialState_fields(3) [of ?d ls now]
    by (auto simp add: jmax_def jfloor_div_def split: option.splits)
  have t0: "0 \<le> t" using t by (rule seconds_nonneg)
  have "0 \<le> t div ?d"
    using t0 duration_pos [of s] by (simp add: pos_imp_zdiv_nonneg_iff)
  then have q0: "0 \<le> q" and le: "t div ?d \<le> q" using qp by simp_all
  have rest: "parseInt (getItemOr0 ls Key_availableRestMinutes) = Some r"
    using r by (simp add: getInitialState_fields(2))
  have st: "st = \<lparr> settings = s, pomodorosCompleted = q, availableRestMinutes = r,
            isRunning = (ls Key_pomodoroIsRunning = Some ''true''),
            totalSeconds = t, isResting = False, restSecondsRemaining = 0,
            prevPomodorosRef = q, manualUpdatesPending = 0,
            localStorage = ls(Key_pomodorosCompleted \<mapsto> toString q),
            emitted = [] \<rparr>"
    using m mount_from_initial_values [OF iv le] by simp
  have "store_ok st"
    unfolding st using rest
    by (simp add: store_ok_def getItemOr0_upd_other getItemOr0_toString)
  moreover have "settled st"
    unfolding st using q0 le by (simp add: settled_def)
  ultimately show ?thesis by simp
qed

lemma step_good:
  assumes "store_ok st" and "settled st" and "step e st = Some st'"
  shows "store_ok st' \<and> settled st'"
proof (cases e)
  case (Reboot now)
  then have "mount (settings st) (handleReboot (localStorage st)) now = Some st'"
    using assms(3) by (simp add: step_def split: if_splits option.splits)
  then show ?thesis by (rule mount_good)
next
  case Tick
  then have "st' = run_effects st (handleMainTick st)"
    using assms(3) by (simp add: step_def split: if_splits)
  then show ?thesis using run_effects_good [OF handled_Tick [OF assms(1,2)]] by simp
next
  case RestTick
  then have "st' = run_effects st (handleRestTick st)"
    using assms(3) by (simp add: step_def split: if_splits)
  then show ?thesis using run_effects_good [OF handled_RestTick [OF assms(1,2)]] by simp
next
  case (VisibilityVisible now)
  then obtain new where n: "handleVisibilityChange now st = Some new"
    and s: "st' = run_effects st new"
    using assms(3) by (auto simp add: step_def split: if_splits option.splits)
  show ?thesis
    unfolding s by (rule run_effects_good [OF handled_Visibility [OF assms(1,2) n]])
next
  case (StartResume now)
  then have "st' = run_effects st (handleStartResume now st)" and "\<not> isResting st"
    using assms(3) by (simp_all add: step_def split: if_splits)
  then show ?thesis using run_effects_good [OF handled_StartResume [OF assms(1,2)]] by simp
next
  case Pause
  then have "st' = run_effects st (handlePause st)"
    using assms(3) by (simp add: step_def split: if_splits)
  then show ?thesis using run_effects_good [OF handled_Pause [OF assms(1,2)]] by simp
next
  case ResetTimer
  then have "st' = run_effects st (handleResetTimer st)"
    using assms(3) by (simp add: step_def split: if_splits)
  then show ?thesis using run_effects_good [OF handled_ResetTimer [OF assms(1,2)]] by simp
next
  case (ResetPomodoros now)
  then have "st' = run_effects st (handleResetPomodoros now st)"
    using assms(3) by (simp add: step_def split: if_splits)
  then show ?thesis using run_effects_good [OF handled_ResetPomodoros [OF assms(1,2)]] by simp
next
  case ResetRestMinutes
  then have "st' = run_effects st (handleResetRestMinutes st)"
    using assms(3) by (simp add: step_def split: if_splits)
  then show ?thesis using run_effects_good [OF handled_ResetRestMinutes [OF assms(1,2)]] by simp
next
  case UseRest
  then have "st' = run_effects st (handleUseRest st)"
    using assms(3) by (simp add: step_def split: if_splits)
  then show ?thesis using run_effects_good [OF handled_UseRest [OF assms(1,2)]] by simp
next
  case EndRest
  then have "st' = run_effects st (handlePauseRest st)"
    using assms(3) by (simp add: step_def split: if_splits)
  then show ?thesis using run_effects_good [OF handled_EndRest [OF assms(1,2)]] by simp
next
  case (AddPomodoro now)
  then have "st' = run_effects st (handleAddPomodoro now st)"
    using assms(3) by (simp add: step_def split: if_splits)
  then show ?thesis using run_effects_good [OF handled_AddPomodoro [OF assms(1,2)]] by simp
next
  case (RemovePomodoro now)
  then have "st' = run_effects st (handleRemovePomodoro now st)"
    using assms(3) by (simp add: step_def split: if_splits)
  then show ?thesis using run_effects_good [OF handled_RemovePomodoro [OF assms(1,2)]] by simp
next
  case (AddRestMinutes n)
  then have "st' = run_effects st (handleAddRestMinutes n st)"
    using assms(3) by (simp add: step_def split: if_splits)
  then show ?thesis using run_effects_good [OF handled_AddRestMinutes [OF assms(1,2)]] by simp
next
  case (RemoveRestMinutes n)
  then have "st' = run_effects st (handleRemoveRestMinutes n st)"
    using assms(3) by (simp add: step_def split: if_splits)
  then show ?thesis using run_effects_good [OF handled_RemoveRestMinutes [OF assms(1,2)]] by simp
next
  case (SaveSettings ns)
  then have "st' = run_effects st (handleSaveSettings ns st)"
    using assms(3) by (simp add: step_def split: if_splits)
  then show ?thesis using run_effects_good [OF handled_SaveSettings [OF assms(1,2)]] by simp
qed

lemma reachable_good:
  assumes "reachable st"
  shows "store_ok st \<and> settled st"
  using assms
proof (induction rule: reachable.induct)
  case (reachable_mount s ls now st)
  then show ?case by (rule mount_good)
next
  case (reachable_step st e st')
  then show ?case using step_good [of st e st'] by simp
qed

section \<open>Reload\<close>

text \<open>
  Claim C1. Mounting from a store whose four numbers parse seeds the cycle count with
  \<open>max(storedCompletedCycles, floor(elapsed / cycleLengthSeconds))\<close>, where \<open>elapsed\<close>
  is the reconciled total; the gift effect's reference count is the seeded count, so the
  effects that run on mount credit nothing (the balance is the stored one, and it is
  not rewritten) and emit nothing.
\<close>

theorem reload_seeds_without_reward:
  fixes ls :: storage and now a b p r :: int and s :: settings
  assumes "parseInt (getItemOr0 ls Key_pomodoroAccumulatedSeconds) = Some a"
    and "parseInt (getItemOr0 ls Key_pomodoroStartTime) = Some b"
    and "parseInt (getItemOr0 ls Key_pomodorosCompleted) = Some p"
    and "parseInt (getItemOr0 ls Key_availableRestMinutes) = Some r"
  shows "\<exists>st. mount s ls now = Some st
     \<and> totalSeconds st = max 0 (if ls Key_pomodoroIsRunning = Some ''true'' \<and> 0 < b
                               then a + (now - b) div 1000 else a)
     \<and> pomodorosCompleted st = max p (totalSeconds st div POMODORO_DURATION_SECONDS s)
     \<and> prevPomodorosRef st = pomodorosCompleted st
     \<and> availableRestMinutes st = r
     \<and> localStorage st Key_availableRestMinutes = ls Key_availableRestMinutes
     \<and> emitted st = []"
  unfolding mount_numeric [OF assms] by simp

text \<open>
  The snapshot with 1500 accumulated seconds and one completed cycle, persisted while
  running with a start timestamp 1500 seconds before the reload, under the 25-minute
  cycle: the count is seeded to 2, and nothing is credited or emitted.
\<close>

theorem reload_seeds_without_reward_witness:
  "map_option (\<lambda>st. (pomodorosCompleted st, totalSeconds st, availableRestMinutes st, emitted st))
     (mount fixed_settings
        [Key_pomodoroAccumulatedSeconds \<mapsto> ''1500'', Key_pomodoroStartTime \<mapsto> ''1000000'',
         Key_pomodoroIsRunning \<mapsto> ''true'', Key_pomodorosCompleted \<mapsto> ''1'']
        2500000)
   = Some (2, 3000, 0, [])"
proof -
  let ?ls = "[Key_pomodoroAccumulatedSeconds \<mapsto> ''1500'', Key_pomodoroStartTime \<mapsto> ''1000000'',
         Key_pomodoroIsRunning \<mapsto> ''true'', Key_pomodorosCompleted \<mapsto> ''1''] :: storage"
  have a: "parseInt (getItemOr0 ?ls Key_pomodoroAccumulatedSeconds) = Some 1500"
    by (simp add: getItemOr0_def parseInt_def isWhiteSpace_def isDigit_def digitsVal_def digitVal_def)
  have b: "parseInt (getItemOr0 ?ls Key_pomodoroStartTime) = Some 1000000"
    by (simp add: getItemOr0_def parseInt_def isWhiteSpace_def isDigit_def digitsVal_def digitVal_def)
  have p: "parseInt (getItemOr0 ?ls Key_pomodorosCompleted) = Some 1"
    by (simp add: getItemOr0_def parseInt_def isWhiteSpace_def isDigit_def digitsVal_def digitVal_def)
  have r: "parseInt (getItemOr0 ?ls Key_availableRestMinutes) = Some 0"
    by (simp add: getItemOr0_def parseInt_def isWhiteSpace_def isDigit_def digitsVal_def digitVal_def)
  show ?thesis
    using reload_seeds_without_reward [OF a b p r, of fixed_settings 2500000]
    by (auto simp add: POMODORO_DURATION_SECONDS_def fixed_settings_def)
qed

section \<open>Cycle monotonicity\<close>

lemma handler_count_mono:
  assumes "\<not> lowers_count e" and "handler e st = Some new"
  shows "pomodorosCompleted st \<le> pomodorosCompleted new"
  using assms
  by (cases e)
     (auto simp add: handleMainTick_def handleRestTick_def handleVisibilityChange_def
        handleStartResume_def handlePause_def handleResetTimer_def handleResetRestMinutes_def
        handleUseRest_def handlePauseRest_def handleAddPomodoro_def handleAddRestMinutes_def
        handleRemoveRestMinutes_def handleSaveSettings_def Let_def
        split: if_splits option.splits)

lemma step_count_mono:
  assumes "\<not> lowers_count e" and "step e st = Some st'"
  shows "pomodorosCompleted st \<le> pomodorosCompleted st'"
proof -
  obtain new where h: "handler e st = Some new" and s: "st' = run_effects st new"
    using assms by (cases e) (auto simp add: step_def split: if_splits option.splits)
  have "pomodorosCompleted st \<le> pomodorosCompleted new"
    using assms(1) h by (rule handler_count_mono)
  also have "\<dots> \<le> pomodorosCompleted st'"
    unfolding s by (rule run_effects_count_mono)
  finally show ?thesis .
qed

lemma run_count_mono:
  assumes "run es st = Some st'" and "\<forall>e \<in> set es. \<not> lowers_count e"
  shows "pomodorosCompleted st \<le> pomodorosCompleted st'"
  using assms
proof (induction es arbitrary: st)
  case Nil
  then show ?case by simp
next
  case (Cons e es)
  then obtain mid where m: "step e st = Some mid" and r: "run es mid = Some st'"
    by (auto split: option.splits)
  have "pomodorosCompleted st \<le> pomodorosCompleted mid"
    using Cons.prems(2) m by (intro step_count_mono [of e]) simp_all
  moreover have "pomodorosCompleted mid \<le> pomodorosCompleted st'"
    using Cons.IH [OF r] Cons.prems(2) by simp
  ultimately show ?case by simp
qed

lemma step_Tick_count:
  assumes "step Tick st = Some st'"
  shows "pomodorosCompleted st' =
           max (pomodorosCompleted st)
               ((totalSeconds st + 1) div POMODORO_DURATION_SECONDS (settings st))"
proof -
  have s: "st' = run_effects st (handleMainTick st)"
    using assms by (simp add: step_def split: if_splits)
  have c: "pomodorosCompleted (effects_pass st (handleMainTick st)) =
             max (pomodorosCompleted st)
               ((totalSeconds st + 1) div POMODORO_DURATION_SECONDS (settings st))"
    by (simp add: effects_pass_count handleMainTick_def)
  show ?thesis
    unfolding s run_effects_def Let_def
    by (simp add: c effects_pass_count) (simp add: handleMainTick_def max_def)
qed

lemma step_Pause_count:
  assumes "step Pause st = Some st'"
  shows "pomodorosCompleted st' =
           max (pomodorosCompleted st)
               (totalSeconds st div POMODORO_DURATION_SECONDS (settings st))"
proof -
  have s: "st' = run_effects st (handlePause st)"
    using assms by (simp add: step_def split: if_splits)
  have c: "pomodorosCompleted (effects_pass st (handlePause st)) =
             max (pomodorosCompleted st)
               (totalSeconds st div POMODORO_DURATION_SECONDS (settings st))"
    by (simp add: effects_pass_count handlePause_def Let_def)
  show ?thesis
    unfolding s run_effects_def Let_def
    by (simp add: c effects_pass_count) (simp add: handlePause_def max_def Let_def)
qed

lemma mount_fresh: "mount fixed_settings Map.empty now = Some fresh_state"
proof -
  have z: "parseInt (getItemOr0 (Map.empty :: storage) k) = Some 0" for k
    by (simp add: getItemOr0_def parseInt_0)
  have t: "toString 0 = ''0''"
    by code_simp
  show ?thesis
    unfolding mount_numeric [OF z z z z]
    by (simp add: fresh_state_def t)
qed

lemma reachable_fresh: "reachable fresh_state"
  using mount_fresh [of 0] by (rule reachable_mount)

text \<open>
  Claim C7, as stated, fails: the reset-cycles command is not a remove-cycle command,
  and it sets the count to zero. From the freshly mounted state, two add-cycle commands
  give a count of 2, and a reset-cycles command after them gives 0.
\<close>

theorem reset_lowers_count_counterexample:
  "mount fixed_settings Map.empty 0 = Some fresh_state
   \<and> map_option pomodorosCompleted (run [AddPomodoro 0, AddPomodoro 0] fresh_state) = Some 2
   \<and> map_option pomodorosCompleted
        (run [AddPomodoro 0, AddPomodoro 0, ResetPomodoros 0] fresh_state) = Some 0"
proof -
  have "map_option pomodorosCompleted (run [AddPomodoro 0, AddPomodoro 0] fresh_state) = Some 2"
    by code_simp
  moreover have "map_option pomodorosCompleted
        (run [AddPomodoro 0, AddPomodoro 0, ResetPomodoros 0] fresh_state) = Some 0"
    by code_simp
  ultimately show ?thesis using mount_fresh [of 0] by simp
qed

text \<open>
  Claim C7, amended. Over every sequence of events that contains no remove-cycle, no
  reset-cycles and no reboot command, started in any state, the cycle count does not
  decrease. A tick raises it to \<open>max(current, derived)\<close> with the derived count taken
  after the tick, and so does a pause with the derived count at the pause.
\<close>

theorem cycle_count_monotone:
  "(run es st = Some st' \<longrightarrow> (\<forall>e \<in> set es. \<not> lowers_count e)
      \<longrightarrow> pomodorosCompleted st \<le> pomodorosCompleted st')
   \<and> (step Tick st = Some st'
      \<longrightarrow> pomodorosCompleted st' =
            max (pomodorosCompleted st)
                ((totalSeconds st + 1) div POMODORO_DURATION_SECONDS (settings st)))
   \<and> (step Pause st = Some st'
      \<longrightarrow> pomodorosCompleted st' =
            max (pomodorosCompleted st)
                (totalSeconds st div POMODORO_DURATION_SECONDS (settings st)))"
  using run_count_mono [of es st st'] step_Tick_count [of st st'] step_Pause_count [of st st']
  by blast

text \<open>
  Start, tick, add a cycle, become visible, pause: the count goes from 0 to 1. A tick
  at 1499 seconds completes the first 25-minute cycle; a pause there does not.
\<close>

theorem cycle_count_monotone_witness:
  "map_option pomodorosCompleted
     (run [StartResume 1000, Tick, AddPomodoro 2000, VisibilityVisible 3000, Pause] fresh_state) = Some 1
   \<and> filter lowers_count [StartResume 1000, Tick, AddPomodoro 2000, VisibilityVisible 3000, Pause] = []
   \<and> pomodorosCompleted fresh_state \<le> 1
   \<and> map_option pomodorosCompleted (step Tick (fresh_state\<lparr> isRunning := True, totalSeconds := 1499 \<rparr>))
       = Some (max 0 ((1499 + 1) div 1500))
   \<and> map_option pomodorosCompleted (step Pause (fresh_state\<lparr> isRunning := True, totalSeconds := 1499 \<rparr>))
       = Some (max 0 (1499 div 1500))"
proof -
  let ?es = "[StartResume 1000, Tick, AddPomodoro 2000, VisibilityVisible 3000, Pause]"
  let ?st = "fresh_state\<lparr> isRunning := True, totalSeconds := 1499 \<rparr>"
  have e: "map_option pomodorosCompleted (run ?es fresh_state) = Some 1"
    by code_simp
  then obtain st' where r: "run ?es fresh_state = Some st'" and c: "pomodorosCompleted st' = 1"
    by auto
  have n: "\<forall>e \<in> set ?es. \<not> lowers_count e" by simp
  have le: "pomodorosCompleted fresh_state \<le> 1"
    using cycle_count_monotone [of ?es fresh_state st'] r n c by simp
  have "step Tick ?st \<noteq> None" by code_simp
  then obtain t1 where t1: "step Tick ?st = Some t1" by auto
  have "step Pause ?st \<noteq> None" by code_simp
  then obtain t2 where t2: "step Pause ?st = Some t2" by auto
  have d: "POMODORO_DURATION_SECONDS (settings ?st) = 1500"
    by (simp add: fresh_state_def fixed_settings_def POMODORO_DURATION_SECONDS_def)
  have k1: "pomodorosCompleted t1 = max 0 ((1499 + 1) div 1500)"
    using cycle_count_monotone [of "[]" ?st t1] t1 d by (simp add: fresh_state_def)
  have k2: "pomodorosCompleted t2 = max 0 (1499 div 1500)"
    using cycle_count_monotone [of "[]" ?st t2] t2 d by (simp add: fresh_state_def)
  have n': "filter lowers_count ?es = []" by simp
  show ?thesis using e n' le t1 t2 k1 k2 by simp
qed

section \<open>Mutual exclusion of the two timers\<close>

lemma effects_pass_store_keys:
  "localStorage (effects_pass old new) Key_pomodoroAccumulatedSeconds
     = localStorage new Key_pomodoroAccumulatedSeconds"
  "localStorage (effects_pass old new) Key_pomodoroStartTime
     = localStorage new Key_pomodoroStartTime"
  "localStorage (effects_pass old new) Key_pomodoroIsRunning
     = localStorage new Key_pomodoroIsRunning"
  by (simp_all add: effects_pass_def Let_def gift_effect_store)

lemma run_effects_store_keys:
  "localStorage (run_effects old new) Key_pomodoroAccumulatedSeconds
     = localStorage new Key_pomodoroAccumulatedSeconds"
  "localStorage (run_effects old new) Key_pomodoroStartTime
     = localStorage new Key_pomodoroStartTime"
  "localStorage (run_effects old new) Key_pomodoroIsRunning
     = localStorage new Key_pomodoroIsRunning"
  by (simp_all add: run_effects_def Let_def effects_pass_store_keys)

lemma handleUseRest_pauses_first:
  assumes "isRunning st" and "\<not> isResting st"
  shows "handleUseRest st = handleUseRest (handlePause st)"
  using assms by (simp add: handleUseRest_def handlePause_def Let_def)

text \<open>
  Claim C8. In every reachable state the focus timer and a rest session are not both
  active. The use-rest command issued while the focus timer runs performs the pause
  transition first (it is the use-rest command applied to the paused state): afterwards
  the rest session is active, the focus timer is stopped, the elapsed seconds are
  committed to the store, the running flag is stored as false, and the start timestamp
  is removed.
\<close>

theorem timers_mutually_exclusive:
  assumes "reachable st"
  shows "\<not> (isRunning st \<and> isResting st)
     \<and> (isRunning st \<longrightarrow>
          handleUseRest st = handleUseRest (handlePause st)
          \<and> (\<exists>st'. step UseRest st = Some st'
                \<and> isResting st' \<and> \<not> isRunning st'
                \<and> totalSeconds st' = totalSeconds st
                \<and> localStorage st' Key_pomodoroAccumulatedSeconds = Some (toString (totalSeconds st))
                \<and> localStorage st' Key_pomodoroIsRunning = Some ''false''
                \<and> localStorage st' Key_pomodoroStartTime = None))"
proof -
  have g: "settled st" using reachable_good [OF assms] by simp
  then have x: "\<not> (isRunning st \<and> isResting st)" by (simp add: settled_def)
  {
    assume r: "isRunning st"
    then have nr: "\<not> isResting st" using x by simp
    have s: "step UseRest st = Some (run_effects st (handleUseRest st))"
      using nr by (simp add: step_def)
    have "handleUseRest st = handleUseRest (handlePause st)"
      using r nr by (rule handleUseRest_pauses_first)
    moreover have "\<exists>st'. step UseRest st = Some st'
                \<and> isResting st' \<and> \<not> isRunning st'
                \<and> totalSeconds st' = totalSeconds st
                \<and> localStorage st' Key_pomodoroAccumulatedSeconds = Some (toString (totalSeconds st))
                \<and> localStorage st' Key_pomodoroIsRunning = Some ''false''
                \<and> localStorage st' Key_pomodoroStartTime = None"
      unfolding s using r nr
      by (simp add: run_effects_store_keys) (simp add: handleUseRest_def handlePause_def Let_def)
    ultimately have "handleUseRest st = handleUseRest (handlePause st)
          \<and> (\<exists>st'. step UseRest st = Some st'
                \<and> isResting st' \<and> \<not> isRunning st'
                \<and> totalSeconds st' = totalSeconds st
                \<and> localStorage st' Key_pomodoroAccumulatedSeconds = Some (toString (totalSeconds st))
                \<and> localStorage st' Key_pomodoroIsRunning = Some ''false''
                \<and> localStorage st' Key_pomodoroStartTime = None)"
      by simp
  }
  then show ?thesis using x by blast
qed

text \<open>
  The fresh state after the start command is reachable and running; use-rest there
  leaves the timer stopped and the rest session active.
\<close>

theorem timers_mutually_exclusive_witness:
  "reachable (run_effects fresh_state (handleStartResume 1000 fresh_state))
   \<and> isRunning (run_effects fresh_state (handleStartResume 1000 fresh_state))
   \<and> \<not> isResting (run_effects fresh_state (handleStartResume 1000 fresh_state))
   \<and> map_option (\<lambda>st. (isRunning st, isResting st))
        (step UseRest (run_effects fresh_state (handleStartResume 1000 fresh_state)))
       = Some (False, True)"
proof -
  let ?st = "run_effects fresh_state (handleStartResume 1000 fresh_state)"
  have "step (StartResume 1000) fresh_state = Some ?st"
    by (simp add: step_def fresh_state_def)
  then have r: "reachable ?st"
    using reachable_fresh by (rule reachable_step [rotated])
  have i: "isRunning ?st" by (simp add: handleStartResume_def)
  show ?thesis
    using timers_mutually_exclusive [OF r] r i by auto
qed

section \<open>Adding a cycle by hand\<close>

lemma effects_pass_balance:
  "availableRestMinutes (effects_pass old new) =
     (if pomodorosCompleted new \<noteq> pomodorosCompleted old
         \<or> longRestReward (settings new) \<noteq> longRestReward (settings old)
         \<or> shortRestReward (settings new) \<noteq> shortRestReward (settings old)
      then availableRestMinutes (gift_effect new) else availableRestMinutes new)"
  by (simp add: effects_pass_def Let_def)

lemma getInitialState_not_running:
  assumes "ls Key_pomodoroIsRunning \<noteq> Some ''true''"
    and "parseInt (getItemOr0 ls Key_pomodoroAccumulatedSeconds) = Some a"
    and "parseInt (getItemOr0 ls Key_pomodorosCompleted) = Some p"
    and "parseInt (getItemOr0 ls Key_availableRestMinutes) = Some r"
  shows "getInitialState d ls now =
     \<lparr> pomodoros = Some (max p (max 0 a div d)), seconds = Some (max 0 a),
       wasRunning = False, restMinutes = Some r \<rparr>"
  using assms
  by (simp add: getInitialState_def jlt_def jmax_def jfloor_div_def Let_def max_def)

lemma div_add_self: "0 < (d::int) \<Longrightarrow> (t + d) div d = t div d + 1"
  by simp

lemma add_pomodoro_step:
  assumes ok: "store_ok st" and se: "settled st"
    and eq: "pomodorosCompleted st = totalSeconds st div POMODORO_DURATION_SECONDS (settings st)"
  shows "step (AddPomodoro now) st = Some (effects_pass st (handleAddPomodoro now st))"
    and "pomodorosCompleted (effects_pass st (handleAddPomodoro now st)) = pomodorosCompleted st + 1"
    and "availableRestMinutes (effects_pass st (handleAddPomodoro now st)) = availableRestMinutes st"
proof -
  let ?d = "POMODORO_DURATION_SECONDS (settings st)"
  let ?new = "handleAddPomodoro now st"
  have d: "0 < ?d" by (rule duration_pos)
  have n: "pomodorosCompleted ?new = pomodorosCompleted st + 1"
    "totalSeconds ?new = totalSeconds st + ?d" "settings ?new = settings st"
    "prevPomodorosRef ?new = prevPomodorosRef st"
    "manualUpdatesPending ?new = manualUpdatesPending st + 1"
    "availableRestMinutes ?new = availableRestMinutes st"
    by (simp_all add: handleAddPomodoro_def Let_def)
  have "(totalSeconds st + ?d) div ?d = pomodorosCompleted st + 1"
    using d eq by simp
  then show c: "pomodorosCompleted (effects_pass st ?new) = pomodorosCompleted st + 1"
    by (simp add: effects_pass_count n)
  then show "step (AddPomodoro now) st = Some (effects_pass st ?new)"
    by (simp add: step_def run_effects_def Let_def n)
  have "availableRestMinutes (gift_effect ?new) = availableRestMinutes st"
    using se by (simp add: gift_effect_balance n settled_def Let_def)
  then show "availableRestMinutes (effects_pass st ?new) = availableRestMinutes st"
    by (simp add: effects_pass_balance n)
qed

lemma reload_after_add:
  fixes st' :: app_state and t p now now' :: int
  assumes ok: "store_ok st'" and se: "settled st'"
    and t0: "0 \<le> t"
    and tot: "totalSeconds st' = t + POMODORO_DURATION_SECONDS (settings st')"
    and cnt: "pomodorosCompleted st' = t div POMODORO_DURATION_SECONDS (settings st') + 1"
    and acc: "localStorage st' Key_pomodoroAccumulatedSeconds = Some (toString (totalSeconds st'))"
    and start: "isRunning st' \<longrightarrow> localStorage st' Key_pomodoroStartTime = Some (toString now)"
    and same: "isRunning st' \<longrightarrow> (now' - now) div 1000 = 0"
  shows "mount (settings st') (localStorage st') now' =
     Some \<lparr> settings = settings st', pomodorosCompleted = pomodorosCompleted st',
            availableRestMinutes = availableRestMinutes st',
            isRunning = isRunning st', totalSeconds = totalSeconds st',
            isResting = False, restSecondsRemaining = 0,
            prevPomodorosRef = pomodorosCompleted st', manualUpdatesPending = 0,
            localStorage = (localStorage st')
              (Key_pomodorosCompleted \<mapsto> toString (pomodorosCompleted st')),
            emitted = [] \<rparr>"
proof -
  let ?d = "POMODORO_DURATION_SECONDS (settings st')"
  let ?ls = "localStorage st'"
  have d: "0 < ?d" by (rule duration_pos)
  have pa: "parseInt (getItemOr0 ?ls Key_pomodoroAccumulatedSeconds) = Some (t + ?d)"
    using acc tot by (simp add: getItemOr0_toString)
  have pp: "parseInt (getItemOr0 ?ls Key_pomodorosCompleted) = Some (pomodorosCompleted st')"
    using ok se by (simp add: store_ok_def settled_def)
  have pr: "parseInt (getItemOr0 ?ls Key_availableRestMinutes) = Some (availableRestMinutes st')"
    using ok by (simp add: store_ok_def)
  have fl: "isRunning st' = (?ls Key_pomodoroIsRunning = Some ''true'')"
    using ok by (simp add: store_ok_def)
  have dv: "(t + ?d) div ?d = pomodorosCompleted st'"
    using d cnt by simp
  have nn: "0 \<le> t + ?d" using t0 d by simp
  have iv: "getInitialState ?d ?ls now' =
      \<lparr> pomodoros = Some (pomodorosCompleted st'), seconds = Some (totalSeconds st'),
        wasRunning = isRunning st', restMinutes = Some (availableRestMinutes st') \<rparr>"
  proof (cases "isRunning st'")
    case False
    then have "?ls Key_pomodoroIsRunning \<noteq> Some ''true''" using fl by simp
    then show ?thesis
      using getInitialState_not_running [OF _ pa pp pr, of ?d now'] False nn dv tot
      by (simp add: max_def)
  next
    case True
    then have ps: "parseInt (getItemOr0 ?ls Key_pomodoroStartTime) = Some now"
      using start by (simp add: getItemOr0_toString)
    have e: "(now' - now) div 1000 = 0" using same True by simp
    show ?thesis
      using getInitialState_numeric [OF pa ps pp pr, of ?d now'] True fl nn dv tot e
      by (simp add: max_def)
  qed
  have le: "totalSeconds st' div ?d \<le> pomodorosCompleted st'"
    using se by (simp add: settled_def)
  show ?thesis
    by (rule mount_from_initial_values [OF iv le])
qed

text \<open>
  Claim C10. In a reachable state whose cycle count equals
  \<open>floor(totalSeconds / cycleLengthSeconds)\<close>, the add-one-cycle command raises the count
  by one and the total by exactly one cycle length, so the equation holds again; the
  added cycle earns no reward. The new total is committed to the store, and the start
  timestamp is re-anchored when the timer runs. A reload of that store (within the same
  wall-clock second as the re-anchoring when the timer runs, at any time otherwise)
  mounts the same count, total, balance and running flag and emits nothing.
\<close>

theorem add_cycle_keeps_equation:
  assumes re: "reachable st"
    and eq: "pomodorosCompleted st = totalSeconds st div POMODORO_DURATION_SECONDS (settings st)"
  shows "\<exists>st'. step (AddPomodoro now) st = Some st'
     \<and> pomodorosCompleted st' = pomodorosCompleted st + 1
     \<and> totalSeconds st' = totalSeconds st + POMODORO_DURATION_SECONDS (settings st)
     \<and> pomodorosCompleted st' = totalSeconds st' div POMODORO_DURATION_SECONDS (settings st')
     \<and> availableRestMinutes st' = availableRestMinutes st
     \<and> localStorage st' Key_pomodoroAccumulatedSeconds = Some (toString (totalSeconds st'))
     \<and> (isRunning st \<longrightarrow> localStorage st' Key_pomodoroStartTime = Some (toString now))
     \<and> (\<forall>now'. (isRunning st \<longrightarrow> (now' - now) div 1000 = 0) \<longrightarrow>
           (\<exists>st''. mount (settings st') (localStorage st') now' = Some st''
              \<and> pomodorosCompleted st'' = pomodorosCompleted st'
              \<and> totalSeconds st'' = totalSeconds st'
              \<and> availableRestMinutes st'' = availableRestMinutes st'
              \<and> isRunning st'' = isRunning st'
              \<and> emitted st'' = []))"
proof -
  let ?d = "POMODORO_DURATION_SECONDS (settings st)"
  let ?new = "handleAddPomodoro now st"
  let ?st' = "effects_pass st ?new"
  have ok: "store_ok st" and se: "settled st"
    using reachable_good [OF re] by simp_all
  note a = add_pomodoro_step [OF ok se eq, of now]
  have good': "store_ok ?st'" "settled ?st'"
    using step_good [OF ok se a(1)] by simp_all
  have d: "0 < ?d" by (rule duration_pos)
  have "0 \<le> totalSeconds st div ?d"
    using se eq by (simp add: settled_def)
  then have t0: "0 \<le> totalSeconds st"
    using d by (simp add: pos_imp_zdiv_nonneg_iff)
  have s': "settings ?st' = settings st" "isRunning ?st' = isRunning st"
    by (simp_all add: handleAddPomodoro_def Let_def)
  have tot: "totalSeconds ?st' = totalSeconds st + ?d"
    by (simp add: handleAddPomodoro_def Let_def)
  have cnt: "pomodorosCompleted ?st' = totalSeconds st div ?d + 1"
    using a(2) eq by simp
  have dv: "pomodorosCompleted ?st' = totalSeconds ?st' div ?d"
    using cnt tot d by simp
  have acc: "localStorage ?st' Key_pomodoroAccumulatedSeconds = Some (toString (totalSeconds ?st'))"
    unfolding tot by (simp add: effects_pass_store_keys) (simp add: handleAddPomodoro_def Let_def)
  have start: "isRunning st \<longrightarrow> localStorage ?st' Key_pomodoroStartTime = Some (toString now)"
    by (simp add: effects_pass_store_keys) (simp add: handleAddPomodoro_def Let_def)
  have reload: "\<exists>st''. mount (settings ?st') (localStorage ?st') now' = Some st''
              \<and> pomodorosCompleted st'' = pomodorosCompleted ?st'
              \<and> totalSeconds st'' = totalSeconds ?st'
              \<and> availableRestMinutes st'' = availableRestMinutes ?st'
              \<and> isRunning st'' = isRunning ?st'
              \<and> emitted st'' = []"
    if "isRunning st \<longrightarrow> (now' - now) div 1000 = 0" for now'
  proof -
    have "mount (settings ?st') (localStorage ?st') now' =
       Some \<lparr> settings = settings ?st', pomodorosCompleted = pomodorosCompleted ?st',
            availableRestMinutes = availableRestMinutes ?st',
            isRunning = isRunning ?st', totalSeconds = totalSeconds ?st',
            isResting = False, restSecondsRemaining = 0,
            prevPomodorosRef = pomodorosCompleted ?st', manualUpdatesPending = 0,
            localStorage = (localStorage ?st')
              (Key_pomodorosCompleted \<mapsto> toString (pomodorosCompleted ?st')),
            emitted = [] \<rparr>"
      using that start
      by (intro reload_after_add [OF good' t0 _ _ acc, of now now'])
         (simp_all only: s' tot cnt)
    then show ?thesis by simp
  qed
  show ?thesis
    using a(1) a(2) tot dv a(3) acc start reload
    by (intro exI [of _ ?st']) (simp only: s' simp_thms, blast)
qed

text \<open>
  The fresh state after the start command: adding a cycle at 5000 ms gives count 1 and
  1500 seconds; a reload at 5400 ms mounts the same and emits nothing.
\<close>

theorem add_cycle_keeps_equation_witness:
  "reachable (run_effects fresh_state (handleStartResume 1000 fresh_state))
   \<and> pomodorosCompleted (run_effects fresh_state (handleStartResume 1000 fresh_state))
       = totalSeconds (run_effects fresh_state (handleStartResume 1000 fresh_state))
           div POMODORO_DURATION_SECONDS (settings (run_effects fresh_state (handleStartResume 1000 fresh_state)))
   \<and> map_option (\<lambda>st. (pomodorosCompleted st, totalSeconds st, availableRestMinutes st))
        (step (AddPomodoro 5000) (run_effects fresh_state (handleStartResume 1000 fresh_state)))
       = Some (1, 1500, 0)
   \<and> map_option (\<lambda>st. (pomodorosCompleted st, totalSeconds st, availableRestMinutes st, emitted st))
        (Option.bind
           (step (AddPomodoro 5000) (run_effects fresh_state (handleStartResume 1000 fresh_state)))
           (\<lambda>st'. mount (settings st') (localStorage st') 5400))
       = Some (1, 1500, 0, [])"
proof -
  let ?st = "run_effects fresh_state (handleStartResume 1000 fresh_state)"
  have "step (StartResume 1000) fresh_state = Some ?st"
    by (simp add: step_def fresh_state_def)
  then have r: "reachable ?st"
    using reachable_fresh by (rule reachable_step [rotated])
  have v: "pomodorosCompleted ?st = 0" "totalSeconds ?st = 0" "availableRestMinutes ?st = 0"
    "POMODORO_DURATION_SECONDS (settings ?st) = 1500"
    by code_simp+
  have eq: "pomodorosCompleted ?st = totalSeconds ?st div POMODORO_DURATION_SECONDS (settings ?st)"
    unfolding v by simp
  obtain st' where s: "step (AddPomodoro 5000) ?st = Some st'"
    and f: "pomodorosCompleted st' = pomodorosCompleted ?st + 1"
      "totalSeconds st' = totalSeconds ?st + POMODORO_DURATION_SECONDS (settings ?st)"
      "availableRestMinutes st' = availableRestMinutes ?st"
    and m: "\<forall>now'. (isRunning ?st \<longrightarrow> (now' - 5000) div 1000 = 0) \<longrightarrow>
           (\<exists>st''. mount (settings st') (localStorage st') now' = Some st''
              \<and> pomodorosCompleted st'' = pomodorosCompleted st'
              \<and> totalSeconds st'' = totalSeconds st'
              \<and> availableRestMinutes st'' = availableRestMinutes st'
              \<and> isRunning st'' = isRunning st'
              \<and> emitted st'' = [])"
    using add_cycle_keeps_equation [OF r eq, of 5000] by blast
  have f': "pomodorosCompleted st' = 1" "totalSeconds st' = 1500" "availableRestMinutes st' = 0"
    using f unfolding v by simp_all
  have "(5400 - 5000) div 1000 = (0::int)" by simp
  then obtain st'' where "mount (settings st') (localStorage st') 5400 = Some st''"
    and "pomodorosCompleted st'' = pomodorosCompleted st'"
    and "totalSeconds st'' = totalSeconds st'"
    and "availableRestMinutes st'' = availableRestMinutes st'"
    and "emitted st'' = []"
    using m by blast
  then show ?thesis using r eq s f' by simp
qed

end
